theory Spec2Isabelle
  imports Complex_Main "HOL-Library.Sublist"
begin

section \<open>JavaScript strings and numbers\<close>

text \<open>
  A JavaScript string is modelled as a \<^typ>\<open>string\<close>; one \<^typ>\<open>char\<close> stands for one
  code unit, so the model covers the code units up to 0xFF and \<open>length\<close> is the
  \<^verbatim>\<open>.length\<close> of the source. \<^verbatim>\<open>String.prototype.trim\<close> removes white space and line
  terminators at both ends; in this range they are TAB, LF, VT, FF, CR, SP and NBSP.
\<close>

definition newline :: char where
  "newline = CHR 0x0A"

definition is_whitespace :: "char \<Rightarrow> bool" where
  "is_whitespace c \<longleftrightarrow>
     c = CHR 0x09 \<or> c = CHR 0x0A \<or> c = CHR 0x0B \<or> c = CHR 0x0C \<or> c = CHR 0x0D \<or>
     c = CHR 0x20 \<or> c = CHR 0xA0"

definition trim :: "string \<Rightarrow> string" where
  "trim s = rev (dropWhile is_whitespace (rev (dropWhile is_whitespace s)))"

text \<open>\<^verbatim>\<open>s.startsWith(p)\<close>.\<close>

definition startsWith :: "string \<Rightarrow> string \<Rightarrow> bool" where
  "startsWith s p \<longleftrightarrow> prefix p s"

text \<open>
  \<^verbatim>\<open>s.split('\n')\<close>: the pieces between line feeds; the result is never empty
  (\<^verbatim>\<open>''.split('\n')\<close> is \<^verbatim>\<open>['']\<close>).
\<close>

fun split_nl :: "string \<Rightarrow> string list" where
  "split_nl [] = [[]]"
| "split_nl (c # cs) =
     (if c = newline then [] # split_nl cs
      else (case split_nl cs of [] \<Rightarrow> [[c]] | piece # pieces \<Rightarrow> (c # piece) # pieces))"

text \<open>
  \<^verbatim>\<open>Date.now()\<close> is an integral number of milliseconds; it and its successor stay far
  below \<open>2^53\<close>, so \<^verbatim>\<open>Date.now() + 1\<close> is exact and the readings are modelled as
  \<^typ>\<open>int\<close>. \<^verbatim>\<open>n.toString()\<close> is the decimal rendering.
\<close>

definition digit_char :: "nat \<Rightarrow> char" where
  "digit_char d = char_of (48 + d)"

function digits :: "nat \<Rightarrow> string" where
  "digits n = (if n < 10 then [digit_char n] else digits (n div 10) @ [digit_char (n mod 10)])"
  by pat_completeness auto
termination
  by (relation "measure id") auto

declare digits.simps [simp del]

definition toString :: "int \<Rightarrow> string" where
  "toString i = (if i < 0 then CHR ''-'' # digits (nat (- i)) else digits (nat i))"

text \<open>The value a decimal rendering denotes; used to read an id back as a number.\<close>

definition digits_value :: "string \<Rightarrow> nat" where
  "digits_value s = foldl (\<lambda>a c. 10 * a + (of_char c - 48)) 0 s"

text \<open>
  A value that reaches a \<^verbatim>\<open>catch\<close>: an \<^verbatim>\<open>Error\<close> instance with its message, the
  \<^verbatim>\<open>TypeError\<close> the engine raises for a property read on \<^verbatim>\<open>undefined\<close>, or a thrown
  value that is not an \<^verbatim>\<open>Error\<close>.
\<close>

datatype js_error = Error string | TypeError | NonError

text \<open>
  The message of the \<^verbatim>\<open>TypeError\<close> for \<^verbatim>\<open>lastMessage.content\<close> on \<^verbatim>\<open>undefined\<close>; the
  wording is the engine's (here that of V8).
\<close>

definition TypeError_message :: string where
  "TypeError_message = ''Cannot read properties of undefined (reading 'content')''"

section \<open>types/index.ts\<close>

datatype ModelProvider = OpenAI | Gemini

datatype role = User | Assistant

record Message =
  msg_id :: string
  msg_role :: role
  content :: string
  timestamp :: int

datatype openai_role = Role_user | Role_assistant | Role_system

record OpenAIMessage =
  oa_role :: openai_role
  oa_content :: string

record OpenAIRequest =
  model :: string
  oa_messages :: "OpenAIMessage list"
  temperature :: "rat option"
  max_tokens :: "nat option"
  stream :: "bool option"

record GeminiMessage =
  g_role :: role
  g_content :: string

section \<open>utils/api.ts: validateApiKey\<close>

definition validateApiKey :: "ModelProvider \<Rightarrow> string \<Rightarrow> bool" where
  "validateApiKey provider apiKey =
     (if apiKey = [] \<or> trim apiKey = [] then False
      else (case provider of
              OpenAI \<Rightarrow> startsWith apiKey ''sk-''
            | Gemini \<Rightarrow> length apiKey > 10))"

section \<open>utils/api.ts: the Gemini adapters\<close>

text \<open>
  \<^verbatim>\<open>xs[i]\<close> is \<^verbatim>\<open>undefined\<close> (here \<open>None\<close>) outside the bounds of the array, and
  \<^verbatim>\<open>xs.slice(0, -1)\<close> keeps the elements before index \<open>max (length - 1) 0\<close>.
\<close>

definition at_index :: "'a list \<Rightarrow> int \<Rightarrow> 'a option" where
  "at_index xs i = (if 0 \<le> i \<and> i < int (length xs) then Some (xs ! nat i) else None)"

definition slice_0_minus1 :: "'a list \<Rightarrow> 'a list" where
  "slice_0_minus1 xs = take (length xs - 1) xs"

datatype gemini_role = G_user | G_model

record GeminiContent =
  gc_role :: gemini_role
  parts :: "string list"

text \<open>What the adapter hands to the SDK: the model configuration, the chat history and the latest turn.\<close>

record GeminiCall =
  g_model :: string
  g_temperature :: rat
  maxOutputTokens :: nat
  history :: "GeminiContent list"
  latest :: string

text \<open>
  The SDK and the remote service are outside the repository; their behaviour is a
  parameter. \<open>sendMessageStream\<close> either rejects or gives a stream: the values of
  \<^verbatim>\<open>chunk.text()\<close> in order, and the error that ends the iteration, if any.
  \<open>sendMessage\<close> either rejects or gives the text of the response.
\<close>

datatype gemini_reply = SendRejects js_error | Streaming "string list" "js_error option"

type_synonym gemini_sdk = "string \<Rightarrow> GeminiCall \<Rightarrow> gemini_reply"

text \<open>
  What an async generator does when it is consumed to its end: the fragments it yields,
  in order, and the error it raises after them, if it does not return normally.
\<close>

type_synonym fragments = "string list \<times> js_error option"

definition gemini_history :: "GeminiMessage list \<Rightarrow> GeminiContent list" where
  "gemini_history messages =
     map (\<lambda>msg. \<lparr>gc_role = (if g_role msg = User then G_user else G_model),
                 parts = [g_content msg]\<rparr>)
         (slice_0_minus1 messages)"

text \<open>
  The request both Gemini adapters build; reading \<^verbatim>\<open>lastMessage.content\<close> raises a
  \<^verbatim>\<open>TypeError\<close> when \<^verbatim>\<open>messages[messages.length - 1]\<close> is \<^verbatim>\<open>undefined\<close>.
\<close>

definition gemini_call :: "GeminiMessage list \<Rightarrow> js_error + GeminiCall" where
  "gemini_call messages =
     (case at_index messages (int (length messages) - 1) of
        None \<Rightarrow> Inl TypeError
      | Some lastMessage \<Rightarrow>
          Inr \<lparr>g_model = ''gemini-1.5-flash-latest'', g_temperature = 7 / 10,
               maxOutputTokens = 10000, history = gemini_history messages,
               latest = g_content lastMessage\<rparr>)"

text \<open>The \<^verbatim>\<open>for await\<close> loop of \<open>callGeminiStream\<close>: a chunk with a falsy text is not yielded.\<close>

fun gemini_chunks :: "string list \<Rightarrow> string list" where
  "gemini_chunks [] = []"
| "gemini_chunks (chunkText # rest) =
     (if chunkText \<noteq> [] then chunkText # gemini_chunks rest else gemini_chunks rest)"

definition callGeminiStream :: "gemini_sdk \<Rightarrow> GeminiMessage list \<Rightarrow> string \<Rightarrow> fragments" where
  "callGeminiStream sdk messages apiKey =
     (case gemini_call messages of
        Inl e \<Rightarrow> ([], Some e)
      | Inr call \<Rightarrow>
          (case sdk apiKey call of
             SendRejects e \<Rightarrow> ([], Some e)
           | Streaming chunks ending \<Rightarrow> (gemini_chunks chunks, ending)))"

definition callGemini :: "(string \<Rightarrow> GeminiCall \<Rightarrow> js_error + string) \<Rightarrow> GeminiMessage list \<Rightarrow> string
    \<Rightarrow> js_error + string" where
  "callGemini sendMessage messages apiKey =
     (case gemini_call messages of
        Inl e \<Rightarrow> Inl e
      | Inr call \<Rightarrow> sendMessage apiKey call)"

section \<open>utils/api.ts: the OpenAI streaming adapter\<close>

record OpenAIPayload =
  p_model :: string
  p_messages :: "OpenAIMessage list"
  p_temperature :: rat
  p_max_tokens :: nat
  p_stream :: bool

text \<open>
  The body of the POST: the spread of the request with every field of the payload
  written after it.
\<close>

definition openai_payload :: "OpenAIRequest \<Rightarrow> OpenAIPayload" where
  "openai_payload request =
     \<lparr>p_model = ''gpt-4o-mini'', p_messages = oa_messages request, p_temperature = 7 / 10,
      p_max_tokens = 10000, p_stream = True\<rparr>"

text \<open>
  \<open>fetch\<close> is a parameter. It rejects; or the response is not ok, and then
  \<^verbatim>\<open>response.json()\<close> rejects (\<open>Inl\<close>) or gives \<^verbatim>\<open>error.error?.message\<close> (\<open>Inr\<close>, \<open>None\<close>
  when absent); or the response is ok, without a body, or with a body whose reader gives
  the decoded texts in order and then is done (\<open>None\<close>) or rejects.
\<close>

datatype http_response =
    FetchRejects js_error
  | NotOk "js_error + string option"
  | OkNoBody
  | OkBody "string list" "js_error option"

type_synonym fetch = "string \<Rightarrow> OpenAIPayload \<Rightarrow> http_response"

text \<open>
  \<^verbatim>\<open>JSON.parse(data).choices[0]?.delta?.content\<close> is a parameter too: \<open>Inl\<close> when the
  parse or the property reads throw, \<open>Inr None\<close> when the content is \<^verbatim>\<open>undefined\<close> or
  \<^verbatim>\<open>null\<close>, \<open>Inr (Some c)\<close> when it is the string \<open>c\<close>.
\<close>

type_synonym delta_content = "string \<Rightarrow> js_error + string option"

text \<open>
  The \<^verbatim>\<open>for (const line of lines)\<close> loop: the fragments yielded, and whether the
  generator returned at the \<^verbatim>\<open>[DONE]\<close> line.
\<close>

fun openai_lines :: "delta_content \<Rightarrow> string list \<Rightarrow> string list \<times> bool" where
  "openai_lines parsed [] = ([], False)"
| "openai_lines parsed (line # rest) =
     (if startsWith line ''data: '' then
        (let data = drop 6 line in
         if data = ''[DONE]'' then ([], True)
         else (case parsed data of
                 Inr (Some c) \<Rightarrow>
                   (if c \<noteq> [] then
                      (case openai_lines parsed rest of (yielded, returned) \<Rightarrow> (c # yielded, returned))
                    else openai_lines parsed rest)
               | Inr None \<Rightarrow> openai_lines parsed rest
               | Inl e \<Rightarrow> openai_lines parsed rest))
      else openai_lines parsed rest)"

text \<open>
  The \<^verbatim>\<open>while (true)\<close> loop over \<^verbatim>\<open>reader.read()\<close>, from the current buffer: the last
  piece of the split stays in the buffer, the pieces before it are the lines.
\<close>

fun openai_reads :: "delta_content \<Rightarrow> string \<Rightarrow> string list \<Rightarrow> js_error option \<Rightarrow> fragments" where
  "openai_reads parsed buffer [] ending = ([], ending)"
| "openai_reads parsed buffer (v # rest) ending =
     (let lines = split_nl (buffer @ v);
          buffer' = last lines;
          (yielded, returned) = openai_lines parsed (butlast lines)
      in if returned then (yielded, None)
         else (case openai_reads parsed buffer' rest ending of
                 (later, raised) \<Rightarrow> (yielded @ later, raised)))"

definition callOpenAIStream :: "fetch \<Rightarrow> delta_content \<Rightarrow> OpenAIRequest \<Rightarrow> string \<Rightarrow> fragments" where
  "callOpenAIStream fetch parsed request apiKey =
     (case fetch apiKey (openai_payload request) of
        FetchRejects e \<Rightarrow> ([], Some e)
      | NotOk (Inl e) \<Rightarrow> ([], Some e)
      | NotOk (Inr m) \<Rightarrow>
          ([], Some (Error (case m of
                              None \<Rightarrow> ''OpenAI API error''
                            | Some t \<Rightarrow> if t \<noteq> [] then t else ''OpenAI API error'')))
      | OkNoBody \<Rightarrow> ([], Some (Error ''No response body''))
      | OkBody values ending \<Rightarrow> openai_reads parsed [] values ending)"

section \<open>components/ChatInterface.tsx\<close>

record chat_props =
  modelProvider :: ModelProvider
  apiKey :: string
  messages :: "Message list"

record chat_state =
  input :: string
  isLoading :: bool
  isStreaming :: bool
  streamingMessage :: string

text \<open>
  The clock readings of one run of \<open>handleSubmit\<close>, in the order of the source:
  \<^verbatim>\<open>Date.now()\<close> and \<^verbatim>\<open>new Date()\<close> for the user message, \<^verbatim>\<open>Date.now()\<close> for
  \<open>assistantMessageId\<close>, \<^verbatim>\<open>new Date()\<close> for the assistant message, and the two readings
  of the \<^verbatim>\<open>catch\<close> block.
\<close>

record clock =
  now_user :: int
  date_user :: int
  now_assistant :: int
  date_assistant :: int
  now_error :: int
  date_error :: int

text \<open>Everything outside the component that one submit reads.\<close>

record world =
  clock_of :: clock
  fetch_of :: fetch
  parsed_of :: delta_content
  sdk_of :: gemini_sdk

datatype adapter_call =
    OpenAI_call OpenAIRequest string
  | Gemini_call "GeminiMessage list" string

text \<open>
  What a handler does, from the event to the end of the handler (for \<open>handleSubmit\<close>
  that is the end of the stream): the arguments of its calls of \<open>onMessagesChange\<close>, in
  order, the adapter calls it makes, and the component state it leaves. The values that
  \<open>streamingMessage\<close> takes while the stream runs are not part of the outcome; the
  \<^verbatim>\<open>finally\<close> block empties it.
\<close>

record outcome =
  changes :: "Message list list"
  adapter_calls :: "adapter_call list"
  state_after :: chat_state

definition submit_rejected :: "chat_props \<Rightarrow> chat_state \<Rightarrow> bool" where
  "submit_rejected props st \<longleftrightarrow> trim (input st) = [] \<or> apiKey props = [] \<or> isLoading st"

definition userMessage :: "clock \<Rightarrow> chat_state \<Rightarrow> Message" where
  "userMessage c st =
     \<lparr>msg_id = toString (now_user c), msg_role = User, content = trim (input st),
      timestamp = date_user c\<rparr>"

text \<open>The state once the synchronous part of an accepted submit has run (the request is in flight).\<close>

definition in_flight :: chat_state where
  "in_flight = \<lparr>input = [], isLoading = True, isStreaming = True, streamingMessage = []\<rparr>"

text \<open>The state the \<^verbatim>\<open>finally\<close> block leaves.\<close>

definition settled :: "chat_state \<Rightarrow> chat_state" where
  "settled st = st\<lparr>isLoading := False, isStreaming := False, streamingMessage := []\<rparr>"

definition openAIMessages :: "Message list \<Rightarrow> OpenAIMessage list" where
  "openAIMessages newMessages =
     map (\<lambda>msg. \<lparr>oa_role = (case msg_role msg of User \<Rightarrow> Role_user | Assistant \<Rightarrow> Role_assistant),
                 oa_content = content msg\<rparr>) newMessages"

definition openAIRequest :: "Message list \<Rightarrow> OpenAIRequest" where
  "openAIRequest newMessages =
     \<lparr>model = ''gpt-4o-mini'', oa_messages = openAIMessages newMessages,
      temperature = None, max_tokens = None, stream = None\<rparr>"

definition geminiMessages :: "Message list \<Rightarrow> GeminiMessage list" where
  "geminiMessages newMessages =
     map (\<lambda>msg. \<lparr>g_role = msg_role msg, g_content = content msg\<rparr>) newMessages"

text \<open>The adapter call of the active provider, and the generator it returns.\<close>

definition streamGenerator :: "world \<Rightarrow> chat_props \<Rightarrow> Message list \<Rightarrow> adapter_call \<times> fragments" where
  "streamGenerator w props newMessages =
     (case modelProvider props of
        OpenAI \<Rightarrow>
          (OpenAI_call (openAIRequest newMessages) (apiKey props),
           callOpenAIStream (fetch_of w) (parsed_of w) (openAIRequest newMessages) (apiKey props))
      | Gemini \<Rightarrow>
          (Gemini_call (geminiMessages newMessages) (apiKey props),
           callGeminiStream (sdk_of w) (geminiMessages newMessages) (apiKey props)))"

text \<open>The \<^verbatim>\<open>for await\<close> loop of either branch: \<^verbatim>\<open>fullResponse += chunk\<close>.\<close>

fun fullResponse :: "string \<Rightarrow> string list \<Rightarrow> string" where
  "fullResponse acc [] = acc"
| "fullResponse acc (chunk # rest) = fullResponse (acc @ chunk) rest"

definition assistantMessage :: "clock \<Rightarrow> string list \<Rightarrow> Message" where
  "assistantMessage c chunks =
     \<lparr>msg_id = toString (now_assistant c + 1), msg_role = Assistant,
      content = fullResponse [] chunks, timestamp = date_assistant c\<rparr>"

definition error_message_of :: "js_error \<Rightarrow> string" where
  "error_message_of e =
     (case e of Error m \<Rightarrow> m | TypeError \<Rightarrow> TypeError_message
              | NonError \<Rightarrow> ''Unknown error occurred'')"

definition errorMessage :: "clock \<Rightarrow> js_error \<Rightarrow> Message" where
  "errorMessage c e =
     \<lparr>msg_id = toString (now_error c + 1), msg_role = Assistant,
      content = ''Error: '' @ error_message_of e, timestamp = date_error c\<rparr>"

text \<open>The message the \<^verbatim>\<open>try\<close> block commits at the end of the stream, or the \<^verbatim>\<open>catch\<close> block after an error.\<close>

definition finalMessage :: "clock \<Rightarrow> fragments \<Rightarrow> Message" where
  "finalMessage c fr =
     (case snd fr of None \<Rightarrow> assistantMessage c (fst fr) | Some e \<Rightarrow> errorMessage c e)"

definition handleSubmit :: "world \<Rightarrow> chat_props \<Rightarrow> chat_state \<Rightarrow> outcome" where
  "handleSubmit w props st =
     (if submit_rejected props st then \<lparr>changes = [], adapter_calls = [], state_after = st\<rparr>
      else
        (let newMessages = messages props @ [userMessage (clock_of w) st];
             (call, fr) = streamGenerator w props newMessages
         in \<lparr>changes = [newMessages, newMessages @ [finalMessage (clock_of w) fr]],
             adapter_calls = [call],
             state_after = settled in_flight\<rparr>))"

definition handleClearChat :: "chat_state \<Rightarrow> outcome" where
  "handleClearChat st = \<lparr>changes = [[]], adapter_calls = [], state_after = st\<rparr>"

section \<open>hooks/useLocalStorage.ts\<close>

text \<open>
  The browser: whether \<^verbatim>\<open>window\<close> is defined, whether \<^verbatim>\<open>localStorage.getItem\<close> throws
  (storage access denied), whether \<^verbatim>\<open>localStorage.setItem\<close> throws (storage disabled or
  over quota), and the stored items.
\<close>

record browser =
  has_window :: bool
  getItem_throws :: bool
  setItem_throws :: bool
  items :: "string \<rightharpoonup> string"

text \<open>
  \<^verbatim>\<open>JSON.stringify\<close> and \<^verbatim>\<open>JSON.parse\<close> at the type of the stored value are parameters;
  \<open>parse\<close> gives \<open>None\<close> where \<^verbatim>\<open>JSON.parse\<close> throws.
\<close>

record 'a codec =
  stringify :: "'a \<Rightarrow> string"
  parse :: "string \<Rightarrow> 'a option"

text \<open>The initial state of the hook: the lazy initialiser of \<^verbatim>\<open>useState\<close>.\<close>

definition storedValue :: "'a codec \<Rightarrow> browser \<Rightarrow> string \<Rightarrow> 'a \<Rightarrow> 'a" where
  "storedValue j b key initialValue =
     (if \<not> has_window b then initialValue
      else if getItem_throws b then initialValue
      else (case items b key of
              None \<Rightarrow> initialValue
            | Some item \<Rightarrow>
                (if item = [] then initialValue
                 else (case parse j item of None \<Rightarrow> initialValue | Some v \<Rightarrow> v))))"

text \<open>
  \<open>setValue\<close> with a plain value (no caller in the repository passes a function): the new
  state of the hook, and the browser after the write.
\<close>

definition setValue :: "'a codec \<Rightarrow> string \<Rightarrow> 'a \<Rightarrow> browser \<Rightarrow> 'a \<times> browser" where
  "setValue j key v b =
     (v, if has_window b \<and> \<not> setItem_throws b
         then b\<lparr>items := (items b)(key \<mapsto> stringify j v)\<rparr> else b)"

section \<open>components/ApiKeyManager.tsx\<close>

record key_state =
  isVisible :: bool
  inputValue :: string
  error :: string

text \<open>The state the handler leaves, and the arguments of its calls of \<open>onApiKeyChange\<close>.\<close>

definition handleSave :: "ModelProvider \<Rightarrow> key_state \<Rightarrow> key_state \<times> string list" where
  "handleSave provider st =
     (if \<not> validateApiKey provider (inputValue st) then
        (st\<lparr>error := (case provider of
                         OpenAI \<Rightarrow> ''Please enter a valid OpenAI API key (starts with sk-)''
                       | Gemini \<Rightarrow> ''Please enter a valid Gemini API key'')\<rparr>, [])
      else (st\<lparr>error := []\<rparr>, [inputValue st]))"

definition handleClear :: "key_state \<Rightarrow> key_state \<times> string list" where
  "handleClear st = (st\<lparr>inputValue := [], error := []\<rparr>, [[]])"

section \<open>app/page.tsx\<close>

record json =
  provider_json :: "ModelProvider codec"
  string_json :: "string codec"
  messages_json :: "Message list codec"

record home =
  h_modelProvider :: ModelProvider
  openaiApiKey :: string
  geminiApiKey :: string
  h_messages :: "Message list"
  h_browser :: browser

text \<open>The four hooks of \<open>Home\<close> at the first render.\<close>

definition Home :: "json \<Rightarrow> browser \<Rightarrow> home" where
  "Home j b =
     \<lparr>h_modelProvider = storedValue (provider_json j) b ''chatbot-model'' OpenAI,
      openaiApiKey = storedValue (string_json j) b ''openai-api-key'' [],
      geminiApiKey = storedValue (string_json j) b ''gemini-api-key'' [],
      h_messages = storedValue (messages_json j) b ''chatbot-messages'' [],
      h_browser = b\<rparr>"

definition setModelProvider :: "json \<Rightarrow> ModelProvider \<Rightarrow> home \<Rightarrow> home" where
  "setModelProvider j v h =
     (let (v', b') = setValue (provider_json j) ''chatbot-model'' v (h_browser h)
      in h\<lparr>h_modelProvider := v', h_browser := b'\<rparr>)"

definition setOpenaiApiKey :: "json \<Rightarrow> string \<Rightarrow> home \<Rightarrow> home" where
  "setOpenaiApiKey j v h =
     (let (v', b') = setValue (string_json j) ''openai-api-key'' v (h_browser h)
      in h\<lparr>openaiApiKey := v', h_browser := b'\<rparr>)"

definition setGeminiApiKey :: "json \<Rightarrow> string \<Rightarrow> home \<Rightarrow> home" where
  "setGeminiApiKey j v h =
     (let (v', b') = setValue (string_json j) ''gemini-api-key'' v (h_browser h)
      in h\<lparr>geminiApiKey := v', h_browser := b'\<rparr>)"

definition setMessages :: "json \<Rightarrow> Message list \<Rightarrow> home \<Rightarrow> home" where
  "setMessages j v h =
     (let (v', b') = setValue (messages_json j) ''chatbot-messages'' v (h_browser h)
      in h\<lparr>h_messages := v', h_browser := b'\<rparr>)"

definition currentApiKey :: "home \<Rightarrow> string" where
  "currentApiKey h = (if h_modelProvider h = OpenAI then openaiApiKey h else geminiApiKey h)"

definition setCurrentApiKey :: "json \<Rightarrow> string \<Rightarrow> home \<Rightarrow> home" where
  "setCurrentApiKey j v h =
     (if h_modelProvider h = OpenAI then setOpenaiApiKey j v h else setGeminiApiKey j v h)"

text \<open>The props \<open>Home\<close> passes to \<open>ChatInterface\<close>.\<close>

definition chatProps :: "home \<Rightarrow> chat_props" where
  "chatProps h =
     \<lparr>modelProvider = h_modelProvider h, apiKey = currentApiKey h, messages = h_messages h\<rparr>"

text \<open>
  The user's actions on the page: each runs the handler of the component and applies its
  calls of \<open>onMessagesChange\<close> (that is \<open>setMessages\<close>) or \<open>onApiKeyChange\<close> (that is
  \<open>setCurrentApiKey\<close>) in order.
\<close>

definition submit :: "json \<Rightarrow> world \<Rightarrow> home \<times> chat_state \<Rightarrow> home \<times> chat_state" where
  "submit j w hs =
     (let out = handleSubmit w (chatProps (fst hs)) (snd hs)
      in (foldl (\<lambda>h v. setMessages j v h) (fst hs) (changes out), state_after out))"

definition clearChat :: "json \<Rightarrow> home \<times> chat_state \<Rightarrow> home \<times> chat_state" where
  "clearChat j hs =
     (let out = handleClearChat (snd hs)
      in (foldl (\<lambda>h v. setMessages j v h) (fst hs) (changes out), state_after out))"

definition saveKey :: "json \<Rightarrow> home \<times> key_state \<Rightarrow> home \<times> key_state" where
  "saveKey j hk =
     (let (st', calls) = handleSave (h_modelProvider (fst hk)) (snd hk)
      in (foldl (\<lambda>h v. setCurrentApiKey j v h) (fst hk) calls, st'))"

text \<open>A session: typing into the input, submitting, clearing the chat.\<close>

datatype event = Typing string | Submit world | ClearChat

fun step :: "json \<Rightarrow> event \<Rightarrow> home \<times> chat_state \<Rightarrow> home \<times> chat_state" where
  "step j (Typing text) hs = (fst hs, (snd hs)\<lparr>input := text\<rparr>)"
| "step j (Submit w) hs = submit j w hs"
| "step j ClearChat hs = clearChat j hs"

fun run :: "json \<Rightarrow> event list \<Rightarrow> home \<times> chat_state \<Rightarrow> home \<times> chat_state" where
  "run j [] hs = hs"
| "run j (e # es) hs = run j es (step j e hs)"

section \<open>Vocabulary of the specification and sample data\<close>

text \<open>A key or an input is empty or whitespace-only.\<close>

definition whitespace_only :: "string \<Rightarrow> bool" where
  "whitespace_only s \<longleftrightarrow> list_all is_whitespace s"

text \<open>
  A stand-in for \<^verbatim>\<open>JSON\<close>: it agrees with \<^verbatim>\<open>JSON\<close> on the providers, on strings
  without characters to escape and on the empty conversation; for any other conversation
  it stores a placeholder that no property below reads. Then a browser with an empty
  storage, and a page with a saved Gemini key.
\<close>

definition sample_json :: json where
  \<open>sample_json =
     \<lparr>provider_json =
        \<lparr>stringify = (\<lambda>p. case p of OpenAI \<Rightarrow> ''"openai"'' | Gemini \<Rightarrow> ''"gemini"''),
         parse = (\<lambda>s. if s = ''"openai"'' then Some OpenAI
                        else if s = ''"gemini"'' then Some Gemini else None)\<rparr>,
      string_json =
        \<lparr>stringify = (\<lambda>s. ''"'' @ s @ ''"''),
         parse = (\<lambda>s. if 2 \<le> length s \<and> hd s = CHR ''"'' \<and> last s = CHR ''"''
                        then Some (butlast (tl s)) else None)\<rparr>,
      messages_json =
        \<lparr>stringify = (\<lambda>ms. if ms = [] then ''[]'' else ''[{}]''),
         parse = (\<lambda>s. if s = ''[]'' then Some [] else None)\<rparr>\<rparr>\<close>

definition sample_browser :: browser where
  "sample_browser =
     \<lparr>has_window = True, getItem_throws = False, setItem_throws = False, items = Map.empty\<rparr>"

definition sample_home :: home where
  "sample_home =
     \<lparr>h_modelProvider = Gemini, openaiApiKey = [], geminiApiKey = ''AIzaSy-old-key'',
      h_messages = [], h_browser = sample_browser\<rparr>"

text \<open>
  A clock, the three-fragment reply of the scenario of the specification as either provider
  streams it, a service that refuses the key, the idle state with a typed input, and a
  conversation of three messages.
\<close>

definition sample_clock :: clock where
  "sample_clock =
     \<lparr>now_user = 1000, date_user = 1000, now_assistant = 1000, date_assistant = 1900,
      now_error = 1900, date_error = 1900\<rparr>"

definition sample_parsed :: delta_content where
  \<open>sample_parsed data =
     (if data = ''{"choices":[{"delta":{"content":"Hi"}}]}'' then Inr (Some ''Hi'')
      else if data = ''{"choices":[{"delta":{"content":" there"}}]}'' then Inr (Some '' there'')
      else if data = ''{"choices":[{"delta":{"content":"!"}}]}'' then Inr (Some ''!'')
      else if data = ''{"choices":[{"delta":{"content":""}}]}'' then Inr (Some [])
      else if data = ''{"choices":[{"delta":{}}]}'' then Inr None
      else Inl (Error ''Unexpected token''))\<close>

definition sample_body :: "string list" where
  \<open>sample_body =
     [''data: {"choices":[{"delta":{"content":"Hi"}}]}'' @ [newline, newline] @ ''data: {"choi'',
      ''ces":[{"delta":{"content":" there"}}]}'' @ [newline, newline],
      ''data: {"choices":[{"delta":{"content":"!"}}]}'' @ [newline, newline]
        @ ''data: [DONE]'' @ [newline, newline]]\<close>

definition sample_world :: world where
  "sample_world =
     \<lparr>clock_of = sample_clock,
      fetch_of = (\<lambda>key payload. OkBody sample_body None),
      parsed_of = sample_parsed,
      sdk_of = (\<lambda>key call. Streaming [''Hi'', '' there'', ''!''] None)\<rparr>"

definition failing_world :: world where
  "failing_world =
     \<lparr>clock_of = sample_clock,
      fetch_of = (\<lambda>key payload. NotOk (Inr (Some ''Incorrect API key provided''))),
      parsed_of = sample_parsed,
      sdk_of = (\<lambda>key call. SendRejects (Error ''API key not valid''))\<rparr>"

definition idle :: "string \<Rightarrow> chat_state" where
  "idle text = \<lparr>input = text, isLoading = False, isStreaming = False, streamingMessage = []\<rparr>"

definition openai_home :: home where
  "openai_home = sample_home\<lparr>h_modelProvider := OpenAI, openaiApiKey := ''sk-test''\<rparr>"

definition sample_conversation :: "Message list" where
  "sample_conversation =
     [\<lparr>msg_id = ''1000'', msg_role = User, content = ''hello'', timestamp = 1000\<rparr>,
      \<lparr>msg_id = ''1001'', msg_role = Assistant, content = ''Hi there!'', timestamp = 1900\<rparr>,
      \<lparr>msg_id = ''5000'', msg_role = User, content = ''more'', timestamp = 5000\<rparr>]"

text \<open>
  A browser over quota that still holds an earlier conversation, and a browser whose stored
  conversation is not JSON.
\<close>

definition full_browser :: browser where
  \<open>full_browser =
     \<lparr>has_window = True, getItem_throws = False, setItem_throws = True,
      items = [''chatbot-messages'' \<mapsto>
        ''[{"id":"1000","role":"user","content":"hello","timestamp":"1970-01-01T00:00:01.000Z"}]'']\<rparr>\<close>

definition corrupt_browser :: browser where
  "corrupt_browser = sample_browser\<lparr>items := [''chatbot-messages'' \<mapsto> ''[{'']\<rparr>"




text \<open>
  Two services that answer with what they were sent: an endpoint that refuses with the
  contents of the posted messages as its message, and an SDK that streams the latest turn
  and then the texts of the history.
\<close>

definition echo_fetch :: fetch where
  "echo_fetch key payload = NotOk (Inr (Some (concat (map oa_content (p_messages payload)))))"

definition echo_sdk :: gemini_sdk where
  "echo_sdk key call = Streaming (latest call # concat (map parts (history call))) None"

text \<open>
  The clock advances over a session: at every submit the reading for the user id is above
  the bound (the largest number an id has been made from so far), and the readings for
  the assistant id and for the error id are not before it; the bound then moves past them.
\<close>

fun clocks_advance :: "int \<Rightarrow> event list \<Rightarrow> bool" where
  "clocks_advance bound [] = True"
| "clocks_advance bound (Typing t # es) = clocks_advance bound es"
| "clocks_advance bound (ClearChat # es) = clocks_advance bound es"
| "clocks_advance bound (Submit w # es) =
     (bound < now_user (clock_of w)
      \<and> now_user (clock_of w) \<le> now_assistant (clock_of w)
      \<and> now_user (clock_of w) \<le> now_error (clock_of w)
      \<and> clocks_advance (max (now_assistant (clock_of w)) (now_error (clock_of w)) + 1) es)"

text \<open>
  The ids of a conversation are pairwise distinct, and each is the rendering of a number up
  to the bound.
\<close>

definition ids_below :: "int \<Rightarrow> Message list \<Rightarrow> bool" where
  "ids_below bound ms \<longleftrightarrow>
     distinct (map msg_id ms) \<and> (\<forall>m\<in>set ms. \<exists>i\<le>bound. msg_id m = toString i)"

text \<open>
  A service that refuses the key within the millisecond of the submit, and a submit in the
  millisecond after it.
\<close>

definition quick_refusal :: world where
  "quick_refusal =
     failing_world\<lparr>clock_of := \<lparr>now_user = 1000, date_user = 1000, now_assistant = 1000,
                                 date_assistant = 1000, now_error = 1000, date_error = 1000\<rparr>\<rparr>"

definition next_millisecond :: world where
  "next_millisecond =
     sample_world\<lparr>clock_of := \<lparr>now_user = 1001, date_user = 1001, now_assistant = 1001,
                                date_assistant = 1900, now_error = 1900, date_error = 1900\<rparr>\<rparr>"

section \<open>Properties: white space and trimming\<close>

lemma dropWhile_all_iff: "(\<forall>x\<in>set (dropWhile P s). P x) \<longleftrightarrow> (\<forall>x\<in>set s. P x)"
proof
  assume a: "\<forall>x\<in>set (dropWhile P s). P x"
  have "dropWhile P s = []"
  proof (rule ccontr)
    assume n: "dropWhile P s \<noteq> []"
    then have "\<not> P (hd (dropWhile P s))" by (rule hd_dropWhile)
    moreover from n have "hd (dropWhile P s) \<in> set (dropWhile P s)" by simp
    ultimately show False using a by blast
  qed
  then show "\<forall>x\<in>set s. P x" by (simp add: dropWhile_eq_Nil_conv)
next
  assume "\<forall>x\<in>set s. P x"
  then show "\<forall>x\<in>set (dropWhile P s). P x" by (blast dest: set_dropWhileD)
qed

lemma trim_Nil_iff: "trim s = [] \<longleftrightarrow> whitespace_only s"
  by (simp add: trim_def whitespace_only_def dropWhile_eq_Nil_conv list_all_iff dropWhile_all_iff)

lemma startsWith_sk_not_blank: "startsWith k ''sk-'' \<Longrightarrow> \<not> whitespace_only k"
  by (auto simp: startsWith_def prefix_def whitespace_only_def is_whitespace_def)

lemma trim_decomp: "\<exists>a b. s = a @ trim s @ b \<and> whitespace_only a \<and> whitespace_only b"
proof -
  let ?t = "dropWhile is_whitespace s"
  let ?a = "takeWhile is_whitespace s"
  let ?b = "rev (takeWhile is_whitespace (rev ?t))"
  have "?t = rev (rev ?t)"
    by simp
  also have "\<dots> = rev (takeWhile is_whitespace (rev ?t) @ dropWhile is_whitespace (rev ?t))"
    by (simp only: takeWhile_dropWhile_id)
  also have "\<dots> = trim s @ ?b"
    by (simp only: rev_append trim_def)
  finally have t: "?t = trim s @ ?b" .
  have "s = ?a @ ?t" by simp
  with t have "s = ?a @ trim s @ ?b" by simp
  moreover have "whitespace_only ?a"
    by (auto simp: whitespace_only_def list_all_iff dest: set_takeWhileD)
  moreover have "whitespace_only ?b"
    by (auto simp: whitespace_only_def list_all_iff dest: set_takeWhileD)
  ultimately show ?thesis by blast
qed

lemma last_dropWhile: "dropWhile P xs \<noteq> [] \<Longrightarrow> last (dropWhile P xs) = last xs"
  by (induction xs) (auto split: if_splits)

lemma trim_ends:
  assumes "trim s \<noteq> []"
  shows "\<not> is_whitespace (hd (trim s)) \<and> \<not> is_whitespace (last (trim s))"
proof -
  let ?t = "dropWhile is_whitespace s"
  let ?u = "dropWhile is_whitespace (rev ?t)"
  from assms have u: "?u \<noteq> []" by (simp add: trim_def)
  have t: "?t \<noteq> []"
  proof
    assume e: "?t = []"
    have "?u = []" unfolding e by simp
    with u show False by contradiction
  qed
  have "last (trim s) = hd ?u" using u by (simp add: trim_def last_rev)
  moreover have "\<not> is_whitespace (hd ?u)" using u by (rule hd_dropWhile)
  moreover have "hd (trim s) = last ?u" using u by (simp add: trim_def hd_rev)
  moreover have "last ?u = last (rev ?t)" using u by (rule last_dropWhile)
  moreover have "last (rev ?t) = hd ?t" using t by (simp add: last_rev)
  moreover have "\<not> is_whitespace (hd ?t)" using t by (rule hd_dropWhile)
  ultimately show ?thesis by simp
qed

section \<open>Properties: the credential check and the save action\<close>

lemma validateApiKey_blank: "whitespace_only k \<Longrightarrow> \<not> validateApiKey p k"
  by (simp add: validateApiKey_def trim_Nil_iff)

lemma validateApiKey_OpenAI: "validateApiKey OpenAI k \<longleftrightarrow> startsWith k ''sk-''"
  using startsWith_sk_not_blank [of k]
  by (auto simp: validateApiKey_def trim_Nil_iff whitespace_only_def)

lemma validateApiKey_Gemini: "validateApiKey Gemini k \<longleftrightarrow> \<not> whitespace_only k \<and> 10 < length k"
  by (auto simp: validateApiKey_def trim_Nil_iff whitespace_only_def)

lemma setCurrentApiKey_current: "currentApiKey (setCurrentApiKey j v h) = v"
  by (simp add: currentApiKey_def setCurrentApiKey_def setOpenaiApiKey_def setGeminiApiKey_def setValue_def)

text \<open>
  Claim C5. \<open>validateApiKey\<close> is false for every empty or whitespace-only key. For the
  provider \<open>openai\<close> it is true exactly when the key starts with \<^verbatim>\<open>sk-\<close> (such a key is
  never whitespace-only); for \<open>gemini\<close> and a key that is not whitespace-only it is
  true exactly when the key has more than 10 characters. The save action calls
  \<open>onApiKeyChange\<close> with the typed key exactly when the check passes, and then the
  credential of the active provider is the typed key and the error is cleared; when the
  check fails the page (the credentials and the storage) is left as it was and a non-empty
  error message is set.
\<close>

theorem validateApiKey_gates_save:
  "(whitespace_only k \<longrightarrow> \<not> validateApiKey p k)
   \<and> (validateApiKey OpenAI k \<longleftrightarrow> startsWith k ''sk-'')
   \<and> (\<not> whitespace_only k \<longrightarrow> (validateApiKey Gemini k \<longleftrightarrow> 10 < length k))
   \<and> snd (handleSave p st) = (if validateApiKey p (inputValue st) then [inputValue st] else [])
   \<and> (validateApiKey (h_modelProvider h) (inputValue st) \<longrightarrow>
        currentApiKey (fst (saveKey j (h, st))) = inputValue st
        \<and> error (snd (saveKey j (h, st))) = [])
   \<and> (\<not> validateApiKey (h_modelProvider h) (inputValue st) \<longrightarrow>
        fst (saveKey j (h, st)) = h \<and> error (snd (saveKey j (h, st))) \<noteq> [])"
proof (intro conjI impI)
  show "snd (handleSave p st) = (if validateApiKey p (inputValue st) then [inputValue st] else [])"
    by (simp add: handleSave_def)
next
  assume "validateApiKey (h_modelProvider h) (inputValue st)"
  then show "currentApiKey (fst (saveKey j (h, st))) = inputValue st"
    by (simp add: saveKey_def handleSave_def setCurrentApiKey_current)
next
  assume "validateApiKey (h_modelProvider h) (inputValue st)"
  then show "error (snd (saveKey j (h, st))) = []"
    by (simp add: saveKey_def handleSave_def)
next
  assume "\<not> validateApiKey (h_modelProvider h) (inputValue st)"
  then show "fst (saveKey j (h, st)) = h"
    by (simp add: saveKey_def handleSave_def)
next
  assume "\<not> validateApiKey (h_modelProvider h) (inputValue st)"
  then show "error (snd (saveKey j (h, st))) \<noteq> []"
    by (cases "h_modelProvider h") (simp_all add: saveKey_def handleSave_def)
qed (simp_all add: validateApiKey_blank validateApiKey_OpenAI validateApiKey_Gemini)


theorem validateApiKey_gates_save_witness:
  "whitespace_only ''           '' \<and> \<not> validateApiKey Gemini ''           ''
   \<and> \<not> whitespace_only ''AIzaSy-12345'' \<and> validateApiKey Gemini ''AIzaSy-12345''
   \<and> \<not> validateApiKey Gemini ''short''
   \<and> fst (saveKey sample_json (sample_home, \<lparr>isVisible = False, inputValue = ''short'', error = []\<rparr>))
       = sample_home
   \<and> currentApiKey (fst (saveKey sample_json
        (sample_home, \<lparr>isVisible = False, inputValue = ''AIzaSy-12345'', error = []\<rparr>)))
       = ''AIzaSy-12345''"
proof -
  let ?bad = "\<lparr>isVisible = False, inputValue = ''short'', error = []\<rparr>"
  let ?good = "\<lparr>isVisible = False, inputValue = ''AIzaSy-12345'', error = []\<rparr>"
  have blank: "whitespace_only ''           ''"
    by (simp add: whitespace_only_def is_whitespace_def)
  have filled: "\<not> whitespace_only ''AIzaSy-12345''"
    by (simp add: whitespace_only_def is_whitespace_def)
  have short: "\<not> validateApiKey (h_modelProvider sample_home) (inputValue ?bad)"
    by (simp add: validateApiKey_def sample_home_def trim_def is_whitespace_def)
  have long: "validateApiKey (h_modelProvider sample_home) (inputValue ?good)"
    by (simp add: validateApiKey_def sample_home_def trim_def is_whitespace_def)
  have gemini: "h_modelProvider sample_home = Gemini"
    by (simp add: sample_home_def)
  from validateApiKey_gates_save [of "''           ''" Gemini ?bad sample_home sample_json]
       validateApiKey_gates_save [of "''AIzaSy-12345''" Gemini ?good sample_home sample_json]
       blank filled short long gemini
  show ?thesis by simp
qed

section \<open>Properties: reading the last message\<close>

lemma at_index_last: "ms \<noteq> [] \<Longrightarrow> at_index ms (int (length ms) - 1) = Some (last ms)"
  by (cases ms rule: rev_cases) (simp_all add: at_index_def nth_append)

lemma slice_0_minus1_butlast: "slice_0_minus1 ms = butlast ms"
  by (simp add: slice_0_minus1_def butlast_conv_take)

lemma gemini_call_nonempty:
  "ms \<noteq> [] \<Longrightarrow> gemini_call ms =
     Inr \<lparr>g_model = ''gemini-1.5-flash-latest'', g_temperature = 7 / 10, maxOutputTokens = 10000,
          history = map (\<lambda>msg. \<lparr>gc_role = (if g_role msg = User then G_user else G_model),
                                 parts = [g_content msg]\<rparr>) (butlast ms),
          latest = g_content (last ms)\<rparr>"
  by (simp add: gemini_call_def at_index_last gemini_history_def slice_0_minus1_butlast)

lemma gemini_call_empty: "gemini_call [] = Inl TypeError"
  by (simp add: gemini_call_def at_index_def)

section \<open>Properties: the conversation loop\<close>

lemma fullResponse_concat: "fullResponse acc chunks = acc @ concat chunks"
  by (induction chunks arbitrary: acc) simp_all

lemma handleSubmit_accepted:
  assumes "\<not> submit_rejected props st"
  shows "handleSubmit w props st =
    \<lparr>changes = [messages props @ [userMessage (clock_of w) st],
                messages props @ [userMessage (clock_of w) st,
                  finalMessage (clock_of w)
                    (snd (streamGenerator w props (messages props @ [userMessage (clock_of w) st])))]],
     adapter_calls = [fst (streamGenerator w props (messages props @ [userMessage (clock_of w) st]))],
     state_after = \<lparr>input = [], isLoading = False, isStreaming = False, streamingMessage = []\<rparr>\<rparr>"
  using assms by (simp add: handleSubmit_def Let_def split_beta settled_def in_flight_def)

lemma setMessages_messages: "h_messages (setMessages j v h) = v"
  by (simp add: setMessages_def setValue_def)

lemma submit_accepted_messages:
  assumes "\<not> submit_rejected (chatProps h) st"
  shows "h_messages (fst (submit j w (h, st))) =
     h_messages h @ [userMessage (clock_of w) st,
        finalMessage (clock_of w)
          (snd (streamGenerator w (chatProps h) (h_messages h @ [userMessage (clock_of w) st])))]"
  using assms
  by (simp add: submit_def handleSubmit_accepted setMessages_messages chatProps_def)

lemma submit_rejected_iff:
  "submit_rejected props st \<longleftrightarrow> whitespace_only (input st) \<or> apiKey props = [] \<or> isLoading st"
  by (simp add: submit_rejected_def trim_Nil_iff)

lemma streamGenerator_snd:
  "snd (streamGenerator w props ms) =
     (case modelProvider props of
        OpenAI \<Rightarrow> callOpenAIStream (fetch_of w) (parsed_of w) (openAIRequest ms) (apiKey props)
      | Gemini \<Rightarrow> callGeminiStream (sdk_of w) (geminiMessages ms) (apiKey props))"
  by (cases "modelProvider props") (simp_all add: streamGenerator_def)

lemma streamGenerator_fst:
  "fst (streamGenerator w props ms) =
     (case modelProvider props of
        OpenAI \<Rightarrow> OpenAI_call (openAIRequest ms) (apiKey props)
      | Gemini \<Rightarrow> Gemini_call (geminiMessages ms) (apiKey props))"
  by (cases "modelProvider props") (simp_all add: streamGenerator_def)

lemma sample_accepted:
  "\<not> submit_rejected (chatProps sample_home) (idle ''hello'')"
  "\<not> submit_rejected (chatProps openai_home) (idle ''hello'')"
  by (simp_all add: submit_rejected_def chatProps_def currentApiKey_def sample_home_def openai_home_def
        idle_def trim_def is_whitespace_def)

lemma sample_openai_stream:
  "callOpenAIStream (fetch_of sample_world) (parsed_of sample_world) request key
     = ([''Hi'', '' there'', ''!''], None)"
  by (simp add: callOpenAIStream_def sample_world_def sample_body_def sample_parsed_def
        newline_def startsWith_def)

lemma sample_gemini_stream:
  "ms \<noteq> [] \<Longrightarrow> callGeminiStream (sdk_of sample_world) (geminiMessages ms) key
     = ([''Hi'', '' there'', ''!''], None)"
  by (simp add: callGeminiStream_def sample_world_def gemini_call_nonempty geminiMessages_def)

text \<open>
  Claim C3. A submit while the input is empty or whitespace-only, or while the credential of
  the active provider is empty, or while a request is in flight (\<open>isLoading\<close>; in
  particular in the state \<open>in_flight\<close> of a running request, whatever has been typed
  since), calls \<open>onMessagesChange\<close> not at all and no adapter, leaves the component
  state as it is, and leaves the page (conversation and storage) unchanged.
\<close>

theorem rejected_submit_is_a_no_op:
  assumes "whitespace_only (input st) \<or> currentApiKey h = [] \<or> isLoading st
           \<or> st = in_flight\<lparr>input := text\<rparr>"
  shows "handleSubmit w (chatProps h) st = \<lparr>changes = [], adapter_calls = [], state_after = st\<rparr>
         \<and> submit j w (h, st) = (h, st)"
proof -
  from assms have "submit_rejected (chatProps h) st"
    by (auto simp: submit_rejected_iff chatProps_def in_flight_def)
  then show ?thesis
    by (simp add: submit_def handleSubmit_def)
qed

theorem rejected_submit_is_a_no_op_witness:
  "currentApiKey (sample_home\<lparr>h_modelProvider := OpenAI\<rparr>) = []
   \<and> submit sample_json sample_world (sample_home\<lparr>h_modelProvider := OpenAI\<rparr>, idle ''hello'')
       = (sample_home\<lparr>h_modelProvider := OpenAI\<rparr>, idle ''hello'')
   \<and> whitespace_only (input (idle [CHR 0x20, CHR 0x09, CHR 0x0A]))
   \<and> adapter_calls (handleSubmit sample_world (chatProps sample_home) (idle [CHR 0x20, CHR 0x09, CHR 0x0A])) = []
   \<and> changes (handleSubmit sample_world (chatProps sample_home) (in_flight\<lparr>input := ''again''\<rparr>)) = []"
proof -
  have a: "currentApiKey (sample_home\<lparr>h_modelProvider := OpenAI\<rparr>) = []"
    by (simp add: currentApiKey_def sample_home_def)
  have b: "whitespace_only (input (idle [CHR 0x20, CHR 0x09, CHR 0x0A]))"
    by (simp add: idle_def whitespace_only_def is_whitespace_def)
  from a b
    rejected_submit_is_a_no_op [of "idle ''hello''" "sample_home\<lparr>h_modelProvider := OpenAI\<rparr>"
       "''again''" sample_world sample_json]
    rejected_submit_is_a_no_op [of "idle [CHR 0x20, CHR 0x09, CHR 0x0A]" sample_home
       "''again''" sample_world sample_json]
    rejected_submit_is_a_no_op [of "in_flight\<lparr>input := ''again''\<rparr>" sample_home
       "''again''" sample_world sample_json]
  show ?thesis by simp
qed

text \<open>
  Claim C1. For an accepted submit whose adapter (the OpenAI or the Gemini one, by the
  active provider) yields the fragments \<open>F\<close> and then ends normally, the conversation
  after the submit is the old one, the user message, and one assistant message whose text
  is the concatenation of \<open>F\<close> in order.
\<close>

theorem finalized_text_is_concatenation:
  assumes "\<not> submit_rejected (chatProps h) st"
    and "newMessages = h_messages h @ [userMessage (clock_of w) st]"
    and "h_modelProvider h = OpenAI \<and>
           callOpenAIStream (fetch_of w) (parsed_of w) (openAIRequest newMessages) (currentApiKey h)
             = (F, None)
         \<or> h_modelProvider h = Gemini \<and>
           callGeminiStream (sdk_of w) (geminiMessages newMessages) (currentApiKey h) = (F, None)"
  shows "h_messages (fst (submit j w (h, st))) =
           newMessages @ [\<lparr>msg_id = toString (now_assistant (clock_of w) + 1), msg_role = Assistant,
                            content = concat F, timestamp = date_assistant (clock_of w)\<rparr>]"
proof -
  from assms(2,3) have "snd (streamGenerator w (chatProps h) newMessages) = (F, None)"
    by (auto simp: streamGenerator_snd chatProps_def)
  with assms(2) have "finalMessage (clock_of w)
      (snd (streamGenerator w (chatProps h) (h_messages h @ [userMessage (clock_of w) st])))
    = \<lparr>msg_id = toString (now_assistant (clock_of w) + 1), msg_role = Assistant,
       content = concat F, timestamp = date_assistant (clock_of w)\<rparr>"
    by (simp add: finalMessage_def assistantMessage_def fullResponse_concat)
  with assms(1,2) show ?thesis
    by (simp add: submit_accepted_messages)
qed

theorem finalized_text_is_concatenation_witness:
  "\<not> submit_rejected (chatProps sample_home) (idle ''hello'')
   \<and> callGeminiStream (sdk_of sample_world)
        (geminiMessages (h_messages sample_home @ [userMessage (clock_of sample_world) (idle ''hello'')]))
        (currentApiKey sample_home) = ([''Hi'', '' there'', ''!''], None)
   \<and> map (\<lambda>m. (msg_role m, content m))
        (h_messages (fst (submit sample_json sample_world (sample_home, idle ''hello''))))
       = [(User, ''hello''), (Assistant, ''Hi there!'')]
   \<and> \<not> submit_rejected (chatProps openai_home) (idle ''hello'')
   \<and> callOpenAIStream (fetch_of sample_world) (parsed_of sample_world)
        (openAIRequest (h_messages openai_home @ [userMessage (clock_of sample_world) (idle ''hello'')]))
        (currentApiKey openai_home) = ([''Hi'', '' there'', ''!''], None)
   \<and> map (\<lambda>m. (msg_role m, content m))
        (h_messages (fst (submit sample_json sample_world (openai_home, idle ''hello''))))
       = [(User, ''hello''), (Assistant, ''Hi there!'')]"
proof -
  have g: "h_modelProvider sample_home = Gemini" and o: "h_modelProvider openai_home = OpenAI"
    and e: "h_messages sample_home = []" "h_messages openai_home = []"
    by (simp_all add: sample_home_def openai_home_def)
  have u: "content (userMessage c (idle ''hello'')) = ''hello''"
          "msg_role (userMessage c (idle ''hello'')) = User" for c
    by (simp_all add: userMessage_def idle_def trim_def is_whitespace_def)
  from finalized_text_is_concatenation [OF sample_accepted(1) refl, of sample_world
         "[''Hi'', '' there'', ''!'']" sample_json]
       finalized_text_is_concatenation [OF sample_accepted(2) refl, of sample_world
         "[''Hi'', '' there'', ''!'']" sample_json]
       sample_accepted sample_openai_stream sample_gemini_stream g o e u
  show ?thesis by simp
qed

text \<open>
  Claim C2. For an accepted submit whose adapter raises \<open>e\<close> (after any fragments \<open>F\<close>),
  \<open>onMessagesChange\<close> is called with the old conversation and the user message, and then
  with the same followed by exactly one assistant message whose text is \<^verbatim>\<open>Error: \<close> and
  the description of \<open>e\<close>; the old messages and the user message are as they were, and the
  component is idle again: input and transient buffer empty, both flags false.
\<close>

theorem failed_stream_appends_one_error_message:
  assumes "\<not> submit_rejected (chatProps h) st"
    and "newMessages = h_messages h @ [userMessage (clock_of w) st]"
    and "snd (streamGenerator w (chatProps h) newMessages) = (F, Some e)"
  shows "changes (handleSubmit w (chatProps h) st) =
           [newMessages, newMessages @ [errorMessage (clock_of w) e]]
         \<and> h_messages (fst (submit j w (h, st))) =
              h_messages h @ [userMessage (clock_of w) st, errorMessage (clock_of w) e]
         \<and> msg_role (errorMessage (clock_of w) e) = Assistant
         \<and> content (errorMessage (clock_of w) e) = ''Error: '' @ error_message_of e
         \<and> snd (submit j w (h, st)) =
              \<lparr>input = [], isLoading = False, isStreaming = False, streamingMessage = []\<rparr>"
proof -
  from assms(2,3) have f: "finalMessage (clock_of w)
      (snd (streamGenerator w (chatProps h) (h_messages h @ [userMessage (clock_of w) st])))
    = errorMessage (clock_of w) e"
    by (simp add: finalMessage_def)
  have m: "messages (chatProps h) = h_messages h"
    by (simp add: chatProps_def)
  from assms(1,2) f m have "changes (handleSubmit w (chatProps h) st) =
           [newMessages, newMessages @ [errorMessage (clock_of w) e]]"
    by (simp add: handleSubmit_accepted)
  moreover from assms(1) f have "h_messages (fst (submit j w (h, st))) =
              h_messages h @ [userMessage (clock_of w) st, errorMessage (clock_of w) e]"
    by (simp add: submit_accepted_messages)
  moreover have "msg_role (errorMessage (clock_of w) e) = Assistant"
    by (simp add: errorMessage_def)
  moreover have "content (errorMessage (clock_of w) e) = ''Error: '' @ error_message_of e"
    by (simp add: errorMessage_def)
  moreover from assms(1) have "snd (submit j w (h, st)) =
              \<lparr>input = [], isLoading = False, isStreaming = False, streamingMessage = []\<rparr>"
    by (simp add: submit_def handleSubmit_accepted)
  ultimately show ?thesis by simp
qed

theorem failed_stream_appends_one_error_message_witness:
  "\<not> submit_rejected (chatProps sample_home) (idle ''hello'')
   \<and> snd (streamGenerator failing_world (chatProps sample_home)
        (h_messages sample_home @ [userMessage (clock_of failing_world) (idle ''hello'')]))
       = ([], Some (Error ''API key not valid''))
   \<and> map (\<lambda>m. (msg_role m, content m))
        (h_messages (fst (submit sample_json failing_world (sample_home, idle ''hello''))))
       = [(User, ''hello''), (Assistant, ''Error: API key not valid'')]
   \<and> snd (submit sample_json failing_world (sample_home, idle ''hello'')) = idle []"
proof -
  have s: "snd (streamGenerator failing_world (chatProps sample_home)
        (h_messages sample_home @ [userMessage (clock_of failing_world) (idle ''hello'')]))
       = ([], Some (Error ''API key not valid''))"
    by (simp add: streamGenerator_snd chatProps_def sample_home_def callGeminiStream_def
          failing_world_def gemini_call_nonempty geminiMessages_def)
  have e: "h_messages sample_home = []"
    by (simp add: sample_home_def)
  have u: "content (userMessage c (idle ''hello'')) = ''hello''"
          "msg_role (userMessage c (idle ''hello'')) = User" for c
    by (simp_all add: userMessage_def idle_def trim_def is_whitespace_def)
  from failed_stream_appends_one_error_message [OF sample_accepted(1) refl s, of sample_json]
       sample_accepted(1) s e u
  show ?thesis by (simp add: idle_def error_message_of_def)
qed

text \<open>
  Claim C9. For an accepted submit, the message appended first is a user message whose
  content is the trimmed input: the input is that content between two runs of white
  space, and the content is not empty and neither starts nor ends with white space. The same
  message is at that place in the conversation the submit commits last.
\<close>

theorem user_message_is_trimmed_input:
  assumes "\<not> submit_rejected props st"
  shows "\<exists>m a b. hd (changes (handleSubmit w props st)) = messages props @ [m]
           \<and> last (changes (handleSubmit w props st)) ! length (messages props) = m
           \<and> msg_role m = User
           \<and> content m = trim (input st)
           \<and> input st = a @ content m @ b \<and> whitespace_only a \<and> whitespace_only b
           \<and> content m \<noteq> []
           \<and> \<not> is_whitespace (hd (content m)) \<and> \<not> is_whitespace (last (content m))"
proof -
  let ?m = "userMessage (clock_of w) st"
  from assms have ne: "trim (input st) \<noteq> []"
    by (simp add: submit_rejected_def)
  obtain a b where ab: "input st = a @ trim (input st) @ b" "whitespace_only a" "whitespace_only b"
    using trim_decomp by blast
  have c: "content ?m = trim (input st)" "msg_role ?m = User"
    by (simp_all add: userMessage_def)
  from assms have "hd (changes (handleSubmit w props st)) = messages props @ [?m]"
    by (simp add: handleSubmit_accepted)
  moreover from assms have "last (changes (handleSubmit w props st)) ! length (messages props) = ?m"
    by (simp add: handleSubmit_accepted nth_append)
  ultimately show ?thesis
    using ab c ne trim_ends [OF ne] by (intro exI [of _ ?m] exI [of _ a] exI [of _ b]) simp
qed

theorem user_message_is_trimmed_input_witness:
  "\<not> submit_rejected (chatProps sample_home) (idle ''  hello '')
   \<and> (\<exists>m. hd (changes (handleSubmit sample_world (chatProps sample_home) (idle ''  hello ''))) = [m]
          \<and> content m = ''hello'')"
proof -
  have a: "\<not> submit_rejected (chatProps sample_home) (idle ''  hello '')"
    by (simp add: submit_rejected_def chatProps_def currentApiKey_def sample_home_def
          idle_def trim_def is_whitespace_def)
  have t: "trim (input (idle ''  hello '')) = ''hello''"
    by (simp add: idle_def trim_def is_whitespace_def)
  have e: "messages (chatProps sample_home) = []"
    by (simp add: chatProps_def sample_home_def)
  from user_message_is_trimmed_input [OF a, of sample_world] a t e
  show ?thesis by auto
qed

section \<open>Properties: the requests of the two adapters\<close>

text \<open>
  Claim C7. The two adapters differ in the shape of what they send, not in the messages.
  The result of the OpenAI adapter is decided by what the endpoint answers to the key and
  to the payload that holds the message list of the request as it is, flat (and a refusal
  of that payload is what the adapter raises). For a non-empty list the Gemini adapters
  hand the SDK all but the last message as the history, \<open>user\<close> as \<open>user\<close> and
  \<open>assistant\<close> as \<open>model\<close>, each with its content, and the content of the last message
  as the latest turn, and their result is the SDK's answer to that. The conversation loop
  gives either adapter the whole conversation with the new user message, each entry with
  its role and content, and commits the message made from that adapter's stream.
\<close>

theorem request_shapes:
  assumes "payload = \<lparr>p_model = ''gpt-4o-mini'', p_messages = oa_messages request,
                       p_temperature = 7 / 10, p_max_tokens = 10000, p_stream = True\<rparr>"
    and "call = \<lparr>g_model = ''gemini-1.5-flash-latest'', g_temperature = 7 / 10,
                  maxOutputTokens = 10000,
                  history = map (\<lambda>m. \<lparr>gc_role = (case g_role m of User \<Rightarrow> G_user
                                                       | Assistant \<Rightarrow> G_model),
                                       parts = [g_content m]\<rparr>) (butlast gm),
                  latest = g_content (last gm)\<rparr>"
    and "newMessages = messages props @ [userMessage (clock_of w) st]"
  shows "(fetch key payload = fetch' key payload \<longrightarrow>
            callOpenAIStream fetch parsed request key = callOpenAIStream fetch' parsed request key)
         \<and> (fetch key payload = FetchRejects e \<longrightarrow>
              callOpenAIStream fetch parsed request key = ([], Some e))
         \<and> (gm \<noteq> [] \<longrightarrow>
              callGeminiStream sdk gm key =
                (case sdk key call of
                   SendRejects e \<Rightarrow> ([], Some e)
                 | Streaming chunks ending \<Rightarrow> (gemini_chunks chunks, ending))
              \<and> callGemini sendMessage gm key = sendMessage key call)
         \<and> (\<not> submit_rejected props st \<longrightarrow>
              last (changes (handleSubmit w props st)) =
                newMessages @ [finalMessage (clock_of w)
                  (case modelProvider props of
                     OpenAI \<Rightarrow>
                       callOpenAIStream (fetch_of w) (parsed_of w)
                         \<lparr>model = ''gpt-4o-mini'',
                          oa_messages =
                            map (\<lambda>m. \<lparr>oa_role = (case msg_role m of User \<Rightarrow> Role_user
                                                      | Assistant \<Rightarrow> Role_assistant),
                                       oa_content = content m\<rparr>) newMessages,
                          temperature = None, max_tokens = None, stream = None\<rparr>
                         (apiKey props)
                   | Gemini \<Rightarrow>
                       callGeminiStream (sdk_of w)
                         (map (\<lambda>m. \<lparr>g_role = msg_role m, g_content = content m\<rparr>) newMessages)
                         (apiKey props))])"
proof (intro conjI impI)
  have p: "openai_payload request = payload"
    by (simp add: openai_payload_def assms(1))
  show "callOpenAIStream fetch parsed request key = callOpenAIStream fetch' parsed request key"
    if "fetch key payload = fetch' key payload"
    using that by (simp add: callOpenAIStream_def p)
  show "callOpenAIStream fetch parsed request key = ([], Some e)"
    if "fetch key payload = FetchRejects e"
    using that by (simp add: callOpenAIStream_def p)
next
  assume ne: "gm \<noteq> []"
  have r: "(\<lambda>m. \<lparr>gc_role = (if g_role m = User then G_user else G_model), parts = [g_content m]\<rparr>)
         = (\<lambda>m. \<lparr>gc_role = (case g_role m of User \<Rightarrow> G_user | Assistant \<Rightarrow> G_model),
                  parts = [g_content m]\<rparr>)"
    by (rule ext) (simp split: role.split)
  have c: "gemini_call gm = Inr call"
    by (simp add: gemini_call_nonempty [OF ne] assms(2) r)
  show "callGeminiStream sdk gm key =
                (case sdk key call of
                   SendRejects e \<Rightarrow> ([], Some e)
                 | Streaming chunks ending \<Rightarrow> (gemini_chunks chunks, ending))"
    by (simp add: callGeminiStream_def c)
  show "callGemini sendMessage gm key = sendMessage key call"
    by (simp add: callGemini_def c)
next
  assume a: "\<not> submit_rejected props st"
  show "last (changes (handleSubmit w props st)) =
                newMessages @ [finalMessage (clock_of w)
                  (case modelProvider props of
                     OpenAI \<Rightarrow>
                       callOpenAIStream (fetch_of w) (parsed_of w)
                         \<lparr>model = ''gpt-4o-mini'',
                          oa_messages =
                            map (\<lambda>m. \<lparr>oa_role = (case msg_role m of User \<Rightarrow> Role_user
                                                      | Assistant \<Rightarrow> Role_assistant),
                                       oa_content = content m\<rparr>) newMessages,
                          temperature = None, max_tokens = None, stream = None\<rparr>
                         (apiKey props)
                   | Gemini \<Rightarrow>
                       callGeminiStream (sdk_of w)
                         (map (\<lambda>m. \<lparr>g_role = msg_role m, g_content = content m\<rparr>) newMessages)
                         (apiKey props))]"
    unfolding assms(3)
    by (cases "modelProvider props")
       (simp_all add: handleSubmit_accepted [OF a] streamGenerator_snd openAIRequest_def
          openAIMessages_def geminiMessages_def)
qed

theorem request_shapes_witness:
  "callOpenAIStream echo_fetch sample_parsed (openAIRequest sample_conversation) ''sk-test''
     = ([], Some (Error ''helloHi there!more''))
   \<and> geminiMessages sample_conversation \<noteq> []
   \<and> callGeminiStream echo_sdk (geminiMessages sample_conversation) ''AIzaSy-old-key''
     = ([''more'', ''hello'', ''Hi there!''], None)
   \<and> \<not> submit_rejected (chatProps (sample_home\<lparr>h_messages := sample_conversation\<rparr>))
         (idle ''again'')
   \<and> map content (last (changes (handleSubmit (sample_world\<lparr>sdk_of := echo_sdk\<rparr>)
         (chatProps (sample_home\<lparr>h_messages := sample_conversation\<rparr>)) (idle ''again''))))
     = [''hello'', ''Hi there!'', ''more'', ''again'', ''againhelloHi there!more'']"
proof -
  let ?payload = "\<lparr>p_model = ''gpt-4o-mini'', p_messages = oa_messages (openAIRequest sample_conversation),
                       p_temperature = 7 / 10, p_max_tokens = 10000, p_stream = True\<rparr>"
  let ?props = "chatProps (sample_home\<lparr>h_messages := sample_conversation\<rparr>)"
  let ?w = "sample_world\<lparr>sdk_of := echo_sdk\<rparr>"
  have f: "echo_fetch ''sk-test'' ?payload
      = (\<lambda>k p. NotOk (Inr (Some ''helloHi there!more''))) ''sk-test'' ?payload"
    by (simp add: echo_fetch_def openAIRequest_def openAIMessages_def sample_conversation_def)
  have n: "geminiMessages sample_conversation \<noteq> []"
    by (simp add: geminiMessages_def sample_conversation_def)
  have a: "\<not> submit_rejected ?props (idle ''again'')"
    by (simp add: submit_rejected_def chatProps_def currentApiKey_def sample_home_def
          idle_def trim_def is_whitespace_def)
  have g: "modelProvider ?props = Gemini" "messages ?props = sample_conversation"
    by (simp_all add: chatProps_def sample_home_def)
  have u: "content (userMessage c (idle ''again'')) = ''again''" for c
    by (simp add: userMessage_def idle_def trim_def is_whitespace_def)
  note t = request_shapes [OF refl refl refl, where fetch = echo_fetch and key = "''sk-test''"
      and request = "openAIRequest sample_conversation"
      and fetch' = "\<lambda>k p. NotOk (Inr (Some ''helloHi there!more''))"
      and parsed = sample_parsed and gm = "geminiMessages sample_conversation"
      and sdk = echo_sdk and props = ?props and st = "idle ''again''" and w = ?w]
  note t' = request_shapes [OF refl refl refl, where key = "''AIzaSy-old-key''"
      and gm = "geminiMessages sample_conversation" and sdk = echo_sdk]
  from t f have 1: "callOpenAIStream echo_fetch sample_parsed (openAIRequest sample_conversation) ''sk-test''
     = ([], Some (Error ''helloHi there!more''))"
    by (simp add: callOpenAIStream_def)
  from t' n have 2: "callGeminiStream echo_sdk (geminiMessages sample_conversation) ''AIzaSy-old-key''
     = ([''more'', ''hello'', ''Hi there!''], None)"
    by (simp add: echo_sdk_def geminiMessages_def sample_conversation_def)
  from t a g have 3: "map content (last (changes (handleSubmit ?w ?props (idle ''again''))))
     = [''hello'', ''Hi there!'', ''more'', ''again'', ''againhelloHi there!more'']"
    by (simp add: u echo_sdk_def callGeminiStream_def gemini_call_nonempty sample_conversation_def
          finalMessage_def assistantMessage_def fullResponse_concat slice_0_minus1_def)
  from 1 2 3 n a show ?thesis by simp
qed

text \<open>
  Claim C10. Both Gemini adapters read \<^verbatim>\<open>messages[messages.length - 1]\<close>. For a non-empty
  list the index is within the bounds, the element read is the last one, and the adapters
  go on to the SDK with its content as the latest turn. For the empty list the read gives
  \<^verbatim>\<open>undefined\<close> and both adapters raise a \<^verbatim>\<open>TypeError\<close>. The conversation loop calls the
  Gemini adapter with a non-empty list only.
\<close>

theorem gemini_last_message_access:
  "(ms \<noteq> [] \<longrightarrow>
      0 \<le> int (length ms) - 1 \<and> int (length ms) - 1 < int (length ms)
      \<and> at_index ms (int (length ms) - 1) = Some (last ms)
      \<and> (\<exists>call. gemini_call ms = Inr call \<and> latest call = g_content (last ms)
            \<and> callGemini sendMessage ms key = sendMessage key call
            \<and> callGeminiStream sdk ms key =
                (case sdk key call of SendRejects e \<Rightarrow> ([], Some e)
                 | Streaming chunks ending \<Rightarrow> (gemini_chunks chunks, ending))))
   \<and> at_index ([] :: GeminiMessage list) (int (length ([] :: GeminiMessage list)) - 1) = None
   \<and> callGeminiStream sdk [] key = ([], Some TypeError)
   \<and> callGemini sendMessage [] key = Inl TypeError
   \<and> (\<not> submit_rejected props st \<and> modelProvider props = Gemini \<longrightarrow>
        (\<exists>gm. adapter_calls (handleSubmit w props st) = [Gemini_call gm (apiKey props)] \<and> gm \<noteq> []))"
proof (intro conjI impI)
  assume ne: "ms \<noteq> []"
  then show "0 \<le> int (length ms) - 1" by (cases ms) simp_all
  show "int (length ms) - 1 < int (length ms)" by simp
  from ne show "at_index ms (int (length ms) - 1) = Some (last ms)" by (rule at_index_last)
  from ne show "\<exists>call. gemini_call ms = Inr call \<and> latest call = g_content (last ms)
            \<and> callGemini sendMessage ms key = sendMessage key call
            \<and> callGeminiStream sdk ms key =
                (case sdk key call of SendRejects e \<Rightarrow> ([], Some e)
                 | Streaming chunks ending \<Rightarrow> (gemini_chunks chunks, ending))"
    by (simp add: gemini_call_nonempty callGemini_def callGeminiStream_def)
next
  show "at_index ([] :: GeminiMessage list) (int (length ([] :: GeminiMessage list)) - 1) = None"
    by (simp add: at_index_def)
  show "callGeminiStream sdk [] key = ([], Some TypeError)"
    by (simp add: callGeminiStream_def gemini_call_empty)
  show "callGemini sendMessage [] key = Inl TypeError"
    by (simp add: callGemini_def gemini_call_empty)
next
  assume "\<not> submit_rejected props st \<and> modelProvider props = Gemini"
  then show "\<exists>gm. adapter_calls (handleSubmit w props st) = [Gemini_call gm (apiKey props)] \<and> gm \<noteq> []"
    by (simp add: handleSubmit_accepted streamGenerator_fst geminiMessages_def)
qed

theorem gemini_last_message_access_witness:
  "[\<lparr>g_role = User, g_content = ''hello''\<rparr>] \<noteq> []
   \<and> at_index [\<lparr>g_role = User, g_content = ''hello''\<rparr>] (int (length [\<lparr>g_role = User, g_content = ''hello''\<rparr>]) - 1)
       = Some \<lparr>g_role = User, g_content = ''hello''\<rparr>
   \<and> callGeminiStream (sdk_of sample_world) [\<lparr>g_role = User, g_content = ''hello''\<rparr>] ''key''
       = ([''Hi'', '' there'', ''!''], None)
   \<and> \<not> submit_rejected (chatProps sample_home) (idle ''hello'')
   \<and> modelProvider (chatProps sample_home) = Gemini
   \<and> (\<exists>gm. adapter_calls (handleSubmit sample_world (chatProps sample_home) (idle ''hello''))
              = [Gemini_call gm ''AIzaSy-old-key''] \<and> gm \<noteq> [])"
proof -
  have g: "modelProvider (chatProps sample_home) = Gemini" "apiKey (chatProps sample_home) = ''AIzaSy-old-key''"
    by (simp_all add: chatProps_def sample_home_def currentApiKey_def)
  from gemini_last_message_access [of "[\<lparr>g_role = User, g_content = ''hello''\<rparr>]"
         "\<lambda>key call. Inr ''Hi there!''" "''key''" "sdk_of sample_world" "chatProps sample_home" "idle ''hello''" sample_world]
       sample_accepted(1) g
  show ?thesis by (auto simp: sample_world_def)
qed

section \<open>Properties: clearing the chat and the storage\<close>

lemma storedValue_cases:
  "storedValue c b key d =
     (if has_window b \<and> \<not> getItem_throws b
      then (case items b key of
              None \<Rightarrow> d
            | Some item \<Rightarrow> (case parse c item of
                              None \<Rightarrow> d
                            | Some v \<Rightarrow> if item = [] then d else v))
      else d)"
  by (simp add: storedValue_def split: option.split)

text \<open>
  Claim C6, as amended. The clear-chat action sets the conversation to the empty sequence.
  When \<^verbatim>\<open>window\<close> is defined and \<^verbatim>\<open>setItem\<close> does not throw, the text \<^verbatim>\<open>[]\<close> is
  written at once under the key \<^verbatim>\<open>chatbot-messages\<close>, and a following first load (whose
  \<^verbatim>\<open>getItem\<close> does not throw) reads the empty sequence. A first load gives the provided
  default when nothing is stored under the key, and also when \<^verbatim>\<open>window\<close> is undefined,
  when \<^verbatim>\<open>getItem\<close> throws, when the stored item is the empty string and when it cannot
  be parsed; otherwise it gives the parsed item. (\<^verbatim>\<open>JSON\<close> writes the empty array as
  \<^verbatim>\<open>[]\<close> and reads it back.)
\<close>

theorem clear_chat_empties_conversation_and_storage:
  assumes "stringify (messages_json j) [] = ''[]''"
    and "parse (messages_json j) ''[]'' = Some []"
    and "h' = fst (clearChat j (h, st))"
  shows "h_messages h' = []
         \<and> (has_window (h_browser h) \<and> \<not> setItem_throws (h_browser h) \<longrightarrow>
              items (h_browser h') ''chatbot-messages'' = Some ''[]''
              \<and> (\<not> getItem_throws (h_browser h) \<longrightarrow> h_messages (Home j (h_browser h')) = []))
         \<and> storedValue c b key d =
              (if has_window b \<and> \<not> getItem_throws b
               then (case items b key of
                       None \<Rightarrow> d
                     | Some item \<Rightarrow> (case parse c item of
                                       None \<Rightarrow> d
                                     | Some v \<Rightarrow> if item = [] then d else v))
               else d)"
proof (intro conjI impI)
  from assms(3) show "h_messages h' = []"
    by (simp add: clearChat_def handleClearChat_def setMessages_def setValue_def)
next
  assume w: "has_window (h_browser h) \<and> \<not> setItem_throws (h_browser h)"
  with assms(1,3) show i: "items (h_browser h') ''chatbot-messages'' = Some ''[]''"
    by (simp add: clearChat_def handleClearChat_def setMessages_def setValue_def)
  from w assms(3) have b: "has_window (h_browser h')" "getItem_throws (h_browser h') = getItem_throws (h_browser h)"
    by (simp_all add: clearChat_def handleClearChat_def setMessages_def setValue_def)
  show "h_messages (Home j (h_browser h')) = []" if "\<not> getItem_throws (h_browser h)"
    using that b i assms(2) by (simp add: Home_def storedValue_def)
next
  show "storedValue c b key d =
              (if has_window b \<and> \<not> getItem_throws b
               then (case items b key of
                       None \<Rightarrow> d
                     | Some item \<Rightarrow> (case parse c item of
                                       None \<Rightarrow> d
                                     | Some v \<Rightarrow> if item = [] then d else v))
               else d)"
    by (rule storedValue_cases)
qed

theorem clear_chat_empties_conversation_and_storage_witness:
  "stringify (messages_json sample_json) [] = ''[]''
   \<and> parse (messages_json sample_json) ''[]'' = Some []
   \<and> has_window (h_browser (sample_home\<lparr>h_messages := sample_conversation\<rparr>))
   \<and> \<not> setItem_throws (h_browser (sample_home\<lparr>h_messages := sample_conversation\<rparr>))
   \<and> \<not> getItem_throws (h_browser (sample_home\<lparr>h_messages := sample_conversation\<rparr>))
   \<and> h_messages (fst (clearChat sample_json (sample_home\<lparr>h_messages := sample_conversation\<rparr>, idle []))) = []
   \<and> items (h_browser (fst (clearChat sample_json (sample_home\<lparr>h_messages := sample_conversation\<rparr>, idle []))))
        ''chatbot-messages'' = Some ''[]''
   \<and> h_messages (Home sample_json
        (h_browser (fst (clearChat sample_json (sample_home\<lparr>h_messages := sample_conversation\<rparr>, idle []))))) = []"
proof -
  have a: "stringify (messages_json sample_json) [] = ''[]''"
    and b: "parse (messages_json sample_json) ''[]'' = Some []"
    by (simp_all add: sample_json_def)
  have c: "has_window (h_browser (sample_home\<lparr>h_messages := sample_conversation\<rparr>))"
          "\<not> setItem_throws (h_browser (sample_home\<lparr>h_messages := sample_conversation\<rparr>))"
          "\<not> getItem_throws (h_browser (sample_home\<lparr>h_messages := sample_conversation\<rparr>))"
    by (simp_all add: sample_home_def sample_browser_def)
  from clear_chat_empties_conversation_and_storage [OF a b refl,
         where h = "sample_home\<lparr>h_messages := sample_conversation\<rparr>" and st = "idle []"
           and c = "messages_json sample_json" and b = sample_browser
           and key = "''chatbot-messages''" and d = "[]"] a b c
  show ?thesis by simp
qed

text \<open>
  The claim as stated fails twice. In a browser whose \<^verbatim>\<open>setItem\<close> throws, the chat is
  cleared on the page while the storage keeps the earlier conversation, not the empty value.
  And a first load falls back to the default although a value is stored, when that value
  cannot be parsed.
\<close>

theorem clear_chat_write_through_counterexample:
  \<open>h_messages (fst (clearChat sample_json (sample_home\<lparr>h_browser := full_browser\<rparr>, idle []))) = []
   \<and> items (h_browser (fst (clearChat sample_json (sample_home\<lparr>h_browser := full_browser\<rparr>, idle []))))
        ''chatbot-messages''
       = Some ''[{"id":"1000","role":"user","content":"hello","timestamp":"1970-01-01T00:00:01.000Z"}]''
   \<and> items (h_browser (fst (clearChat sample_json (sample_home\<lparr>h_browser := full_browser\<rparr>, idle []))))
        ''chatbot-messages''
       \<noteq> Some (stringify (messages_json sample_json) [])
   \<and> items corrupt_browser ''chatbot-messages'' = Some ''[{''
   \<and> storedValue (messages_json sample_json) corrupt_browser ''chatbot-messages'' sample_conversation
       = sample_conversation\<close>
  by (simp add: clearChat_def handleClearChat_def setMessages_def setValue_def sample_home_def
        full_browser_def corrupt_browser_def sample_browser_def sample_json_def storedValue_def)

section \<open>Properties: lines and fragments of the streams\<close>

lemma split_nl_not_Nil: "split_nl s \<noteq> []"
  by (induction s) (auto split: list.split)

lemma split_nl_append:
  "split_nl (a @ b) = butlast (split_nl a) @ split_nl (last (split_nl a) @ b)"
proof (induction a)
  case Nil
  show ?case by simp
next
  case (Cons c a)
  show ?case
  proof (cases "c = newline")
    case True
    with Cons show ?thesis by (simp add: split_nl_not_Nil)
  next
    case False
    obtain p ps where s: "split_nl a = p # ps"
      using split_nl_not_Nil [of a] by (cases "split_nl a") auto
    show ?thesis
    proof (cases ps)
      case Nil
      with s False Cons show ?thesis by simp
    next
      case (Cons q qs)
      with s False Cons.IH show ?thesis by simp
    qed
  qed
qed

lemma split_nl_pieces: "p \<in> set (split_nl s) \<Longrightarrow> newline \<notin> set p"
  by (induction s arbitrary: p) (auto split: if_splits list.splits)

lemma split_nl_no_newline: "newline \<notin> set s \<Longrightarrow> split_nl s = [s]"
  by (induction s) auto

lemma split_nl_line: "newline \<notin> set x \<Longrightarrow> split_nl (x @ newline # rest) = x # split_nl rest"
  by (induction x) auto

lemma last_split_nl:
  assumes "before = [] \<or> last before = newline"
  shows "last (split_nl before) = []"
proof (cases before rule: rev_cases)
  case Nil
  then show ?thesis by simp
next
  case (snoc s c)
  with assms have c: "c = newline" by simp
  let ?x = "last (split_nl s)"
  have "newline \<notin> set ?x"
    by (rule split_nl_pieces [of _ s]) (simp add: split_nl_not_Nil)
  then have "split_nl (?x @ newline # []) = ?x # split_nl []"
    by (rule split_nl_line)
  then show ?thesis
    using split_nl_append [of s "[newline]"] snoc c by simp
qed

text \<open>
  The lines loop over two runs of lines, and the read loop as one pass over the complete
  lines of everything read: how the body is cut into reads does not matter.
\<close>

lemma openai_lines_append:
  "openai_lines parsed (xs @ ys) =
     (case openai_lines parsed xs of
        (yielded, returned) \<Rightarrow>
          if returned then (yielded, True)
          else (case openai_lines parsed ys of (later, r) \<Rightarrow> (yielded @ later, r)))"
  by (induction xs) (auto simp: Let_def split: prod.splits sum.splits option.splits)

lemma openai_reads_concat:
  "newline \<notin> set buffer \<Longrightarrow>
   openai_reads parsed buffer values ending =
     (case openai_lines parsed (butlast (split_nl (buffer @ concat values))) of
        (yielded, returned) \<Rightarrow> (yielded, if returned then None else ending))"
proof (induction "values" arbitrary: buffer)
  case Nil
  then show ?case by (simp add: split_nl_no_newline)
next
  case (Cons v rest)
  let ?lines = "split_nl (buffer @ v)"
  have n: "newline \<notin> set (last ?lines)"
    by (rule split_nl_pieces [of _ "buffer @ v"]) (simp add: split_nl_not_Nil)
  have "split_nl (buffer @ concat (v # rest)) = butlast ?lines @ split_nl (last ?lines @ concat rest)"
    using split_nl_append [of "buffer @ v" "concat rest"] by simp
  then have b: "butlast (split_nl (buffer @ concat (v # rest)))
      = butlast ?lines @ butlast (split_nl (last ?lines @ concat rest))"
    by (simp add: butlast_append split_nl_not_Nil)
  show ?case
    unfolding b openai_lines_append
    by (simp add: Cons.IH [OF n] Let_def split: prod.splits)
qed




text \<open>
  The sentinel is not a chunk: the loop tests \<^verbatim>\<open>data === '[DONE]'\<close> before the \<^verbatim>\<open>try\<close>
  block and returns there. A body with the sentinel line yields the fragments of the lines
  before it and ends normally, whatever follows.
\<close>

lemma openai_lines_done: "openai_lines parsed (''data: [DONE]'' # rest) = ([], True)"
  by (simp add: startsWith_def)

lemma sentinel_ends_stream:
  assumes "before = [] \<or> last before = newline"
    and "concat values = before @ ''data: [DONE]'' @ newline # after"
  shows "openai_reads parsed [] values ending
           = (fst (openai_lines parsed (butlast (split_nl before))), None)"
proof -
  let ?line = "''data: [DONE]''"
  have e: "last (split_nl before) = []"
    using assms(1) by (rule last_split_nl)
  have "newline \<notin> set ?line"
    by (simp add: newline_def)
  then have "split_nl (?line @ newline # after) = ?line # split_nl after"
    by (rule split_nl_line)
  then have "split_nl (concat values) = butlast (split_nl before) @ ?line # split_nl after"
    using split_nl_append [of before "?line @ newline # after"] e assms(2) by simp
  then have a: "butlast (split_nl (concat values))
      = butlast (split_nl before) @ ?line # butlast (split_nl after)"
    by (simp add: butlast_append split_nl_not_Nil)
  have r: "openai_reads parsed [] values ending =
      (case openai_lines parsed (butlast (split_nl (concat values))) of
         (yielded, returned) \<Rightarrow> (yielded, if returned then None else ending))"
    using openai_reads_concat [of "[]" parsed "values" ending] by simp
  show ?thesis
    unfolding r a openai_lines_append [of parsed "butlast (split_nl before)"] openai_lines_done
    by (simp split: prod.splits)
qed



section \<open>Properties: decimal renderings\<close>

lemma digits_value_snoc: "digits_value (s @ [c]) = 10 * digits_value s + (of_char c - 48)"
  by (simp add: digits_value_def)

lemma of_char_digit_char: "d < 10 \<Longrightarrow> of_char (digit_char d) = 48 + d"
  by (simp add: digit_char_def)

lemma digits_value_digits: "digits_value (digits n) = n"
proof (induction n rule: digits.induct)
  case (1 n)
  show ?case
  proof (cases "n < 10")
    case True
    then have "digits n = [digit_char n]"
      by (subst digits.simps) simp
    with True show ?thesis
      by (simp add: of_char_digit_char digits_value_def)
  next
    case False
    then have "digits n = digits (n div 10) @ [digit_char (n mod 10)]"
      by (subst digits.simps) simp
    with False "1.IH" show ?thesis
      by (simp add: digits_value_snoc of_char_digit_char)
  qed
qed

lemma digits_chars: "c \<in> set (digits n) \<Longrightarrow> \<exists>d<10. c = digit_char d"
proof (induction n rule: digits.induct)
  case (1 n)
  show ?case
  proof (cases "n < 10")
    case True
    with "1.prems" show ?thesis
      by (subst (asm) digits.simps) auto
  next
    case False
    with "1.prems" have "c \<in> set (digits (n div 10)) \<or> c = digit_char (n mod 10)"
      by (subst (asm) digits.simps) auto
    with False "1.IH" show ?thesis
      by (auto intro: exI [of _ "n mod 10"])
  qed
qed

lemma digits_not_Nil: "digits n \<noteq> []"
  by (subst digits.simps) simp

lemma digit_char_not_minus: "d < 10 \<Longrightarrow> digit_char d \<noteq> CHR ''-''"
proof
  assume "d < 10" and "digit_char d = CHR ''-''"
  then have "(of_char (digit_char d) :: nat) = of_char (CHR ''-'')" by simp
  with \<open>d < 10\<close> show False by (simp add: of_char_digit_char)
qed

lemma digits_not_minus: "digits n \<noteq> CHR ''-'' # s"
proof
  assume a: "digits n = CHR ''-'' # s"
  then have "CHR ''-'' \<in> set (digits n)" by simp
  then obtain d where "d < 10" "CHR ''-'' = digit_char d"
    using digits_chars by blast
  then show False using digit_char_not_minus [of d] by simp
qed

lemma digits_inj: "digits m = digits n \<Longrightarrow> m = n"
  by (metis digits_value_digits)

lemma toString_inj: "toString i = toString j \<Longrightarrow> i = j"
proof (cases "i < 0"; cases "j < 0")
  assume "toString i = toString j" "i < 0" "j < 0"
  then have "nat (- i) = nat (- j)" by (simp add: toString_def digits_inj)
  with \<open>i < 0\<close> \<open>j < 0\<close> show ?thesis by simp
next
  assume "toString i = toString j" "i < 0" "\<not> j < 0"
  then have "digits (nat j) = CHR ''-'' # digits (nat (- i))" by (simp add: toString_def)
  then show ?thesis using digits_not_minus by blast
next
  assume "toString i = toString j" "\<not> i < 0" "j < 0"
  then have "digits (nat i) = CHR ''-'' # digits (nat (- j))" by (simp add: toString_def)
  then show ?thesis using digits_not_minus by blast
next
  assume "toString i = toString j" "\<not> i < 0" "\<not> j < 0"
  then have "nat i = nat j" by (simp add: toString_def digits_inj)
  with \<open>\<not> i < 0\<close> \<open>\<not> j < 0\<close> show ?thesis by simp
qed

section \<open>Properties: the ids of the messages\<close>

lemma ids_below_mono: "ids_below a ms \<Longrightarrow> a \<le> b \<Longrightarrow> ids_below b ms"
  unfolding ids_below_def by (meson order_trans)

lemma ids_below_snoc:
  assumes "ids_below a ms" and "a < i" and "i \<le> b"
  shows "ids_below b (ms @ [m\<lparr>msg_id := toString i\<rparr>])"
proof -
  have "toString i \<notin> msg_id ` set ms"
  proof
    assume "toString i \<in> msg_id ` set ms"
    then obtain x where "x \<in> set ms" "msg_id x = toString i" by auto
    with assms(1) obtain k where "k \<le> a" "toString k = toString i"
      unfolding ids_below_def by metis
    then have "k = i" using toString_inj by blast
    with \<open>k \<le> a\<close> assms(2) show False by simp
  qed
  moreover have "\<forall>x\<in>set ms. \<exists>k\<le>b. msg_id x = toString k"
    using assms unfolding ids_below_def by (meson order_trans less_imp_le)
  ultimately show ?thesis
    using assms unfolding ids_below_def by auto
qed

lemma finalMessage_id:
  "msg_id (finalMessage c fr) = toString (now_assistant c + 1)
   \<or> msg_id (finalMessage c fr) = toString (now_error c + 1)"
  by (simp add: finalMessage_def assistantMessage_def errorMessage_def split: option.split)

lemma submit_ids_below:
  assumes inv: "ids_below bound (h_messages h)"
    and adv: "bound < now_user (clock_of w)" "now_user (clock_of w) \<le> now_assistant (clock_of w)"
      "now_user (clock_of w) \<le> now_error (clock_of w)"
  shows "ids_below (max (now_assistant (clock_of w)) (now_error (clock_of w)) + 1)
           (h_messages (fst (submit j w (h, st))))"
proof (cases "submit_rejected (chatProps h) st")
  case True
  then have "submit j w (h, st) = (h, st)"
    by (simp add: submit_def handleSubmit_def)
  with inv adv show ?thesis
    by (auto intro: ids_below_mono)
next
  case False
  let ?c = "clock_of w"
  let ?u = "userMessage ?c st"
  let ?f = "finalMessage ?c (snd (streamGenerator w (chatProps h) (h_messages h @ [?u])))"
  let ?top = "max (now_assistant ?c) (now_error ?c) + 1"
  have u: "?u = ?u\<lparr>msg_id := toString (now_user ?c)\<rparr>"
    by (simp add: userMessage_def)
  have "ids_below (now_user ?c) (h_messages h @ [?u\<lparr>msg_id := toString (now_user ?c)\<rparr>])"
    using inv adv(1) by (rule ids_below_snoc) simp
  with u have 1: "ids_below (now_user ?c) (h_messages h @ [?u])" by simp
  obtain i where i: "msg_id ?f = toString i" "now_user ?c < i" "i \<le> ?top"
    using finalMessage_id [of ?c "snd (streamGenerator w (chatProps h) (h_messages h @ [?u]))"] adv
    by (elim disjE) (fastforce, fastforce)
  then have f: "?f = ?f\<lparr>msg_id := toString i\<rparr>" by simp
  have "ids_below ?top ((h_messages h @ [?u]) @ [?f\<lparr>msg_id := toString i\<rparr>])"
    using 1 i(2,3) by (rule ids_below_snoc)
  with f have "ids_below ?top (h_messages h @ [?u, ?f])" by simp
  with False show ?thesis
    by (simp add: submit_accepted_messages)
qed

lemma run_ids_below:
  "ids_below bound (h_messages h) \<Longrightarrow> clocks_advance bound es \<Longrightarrow>
   \<exists>b. ids_below b (h_messages (fst (run j es (h, st))))"
proof (induction es arbitrary: bound h st)
  case Nil
  then show ?case by auto
next
  case (Cons e es)
  show ?case
  proof (cases e)
    case (Typing t)
    with Cons.prems Cons.IH [of bound h "st\<lparr>input := t\<rparr>"] show ?thesis by simp
  next
    case (Submit w)
    with Cons.prems have adv: "bound < now_user (clock_of w)"
        "now_user (clock_of w) \<le> now_assistant (clock_of w)"
        "now_user (clock_of w) \<le> now_error (clock_of w)"
        "clocks_advance (max (now_assistant (clock_of w)) (now_error (clock_of w)) + 1) es"
      by simp_all
    have "ids_below (max (now_assistant (clock_of w)) (now_error (clock_of w)) + 1)
           (h_messages (fst (submit j w (h, st))))"
      using Cons.prems(1) adv(1-3) by (rule submit_ids_below)
    then have "\<exists>b. ids_below b (h_messages (fst (run j es
        (fst (submit j w (h, st)), snd (submit j w (h, st))))))"
      using adv(4) by (rule Cons.IH)
    with Submit show ?thesis by simp
  next
    case ClearChat
    have "ids_below bound (h_messages (fst (clearChat j (h, st))))"
      by (simp add: clearChat_def handleClearChat_def setMessages_messages ids_below_def)
    moreover from ClearChat Cons.prems have "clocks_advance bound es" by simp
    ultimately have "\<exists>b. ids_below b (h_messages (fst (run j es
        (fst (clearChat j (h, st)), snd (clearChat j (h, st))))))"
      by (rule Cons.IH)
    with ClearChat show ?thesis by simp
  qed
qed

text \<open>
  Claim C8, as amended. Let the ids of the conversation be pairwise distinct renderings of
  numbers up to a bound, and let the clock advance over the session: at every submit
  \<^verbatim>\<open>Date.now()\<close> for the user id is above the bound and above every earlier reading by
  more than one, and the readings for the assistant id and the error id are not before
  it. Then after any sequence of typing, submit (streamed to its end or failed) and clear
  steps the ids of the messages of the conversation are pairwise distinct.
\<close>

theorem ids_unique_while_clock_advances:
  assumes "ids_below bound (h_messages h)" and "clocks_advance bound es"
  shows "distinct (map msg_id (h_messages (fst (run j es (h, st)))))"
  using run_ids_below [OF assms] by (auto simp: ids_below_def)

theorem ids_unique_while_clock_advances_witness:
  "ids_below 0 (h_messages sample_home)
   \<and> clocks_advance 0 [Typing ''hello'', Submit sample_world, Typing ''again'',
        Submit (sample_world\<lparr>clock_of := sample_clock\<lparr>now_user := 5000, now_assistant := 5000,
                                                      now_error := 5900\<rparr>\<rparr>)]
   \<and> distinct (map msg_id (h_messages (fst (run sample_json
        [Typing ''hello'', Submit sample_world, Typing ''again'',
         Submit (sample_world\<lparr>clock_of := sample_clock\<lparr>now_user := 5000, now_assistant := 5000,
                                                       now_error := 5900\<rparr>\<rparr>)]
        (sample_home, idle [])))))"
proof -
  have a: "ids_below 0 (h_messages sample_home)"
    by (simp add: ids_below_def sample_home_def)
  have b: "clocks_advance 0 [Typing ''hello'', Submit sample_world, Typing ''again'',
        Submit (sample_world\<lparr>clock_of := sample_clock\<lparr>now_user := 5000, now_assistant := 5000,
                                                      now_error := 5900\<rparr>\<rparr>)]"
    by (simp add: sample_world_def sample_clock_def)
  from ids_unique_while_clock_advances [OF a b, of sample_json "idle []"] a b
  show ?thesis by simp
qed

lemma setMessages_keeps:
  "h_modelProvider (setMessages j v h) = h_modelProvider h"
  "currentApiKey (setMessages j v h) = currentApiKey h"
  by (simp_all add: setMessages_def setValue_def currentApiKey_def)

lemma submit_accepted_page:
  assumes "\<not> submit_rejected (chatProps h) st"
  shows "h_modelProvider (fst (submit j w (h, st))) = h_modelProvider h"
    and "currentApiKey (fst (submit j w (h, st))) = currentApiKey h"
    and "snd (submit j w (h, st)) =
           \<lparr>input = [], isLoading = False, isStreaming = False, streamingMessage = []\<rparr>"
  using assms by (simp_all add: submit_def handleSubmit_accepted setMessages_keeps)

text \<open>
  The claim as stated fails: the ids are made from the clock alone. When an exchange ends
  within a millisecond and the next submit comes in the millisecond after it, the error
  message of the first and the user message of the second have the same id.
\<close>

theorem ids_collide_counterexample:
  "map msg_id (h_messages (fst (run sample_json
      [Typing ''hello'', Submit quick_refusal, Typing ''again'', Submit next_millisecond]
      (sample_home, idle []))))
     = [toString 1000, toString 1001, toString 1001, toString 1002]
   \<and> \<not> distinct (map msg_id (h_messages (fst (run sample_json
      [Typing ''hello'', Submit quick_refusal, Typing ''again'', Submit next_millisecond]
      (sample_home, idle [])))))"
proof -
  let ?s1 = "submit sample_json quick_refusal (sample_home, idle ''hello'')"
  let ?s2 = "submit sample_json next_millisecond (fst ?s1, idle ''again'')"
  have k: "currentApiKey sample_home = ''AIzaSy-old-key''" "h_modelProvider sample_home = Gemini"
          "h_messages sample_home = []"
    by (simp_all add: currentApiKey_def sample_home_def)
  have a1: "\<not> submit_rejected (chatProps sample_home) (idle ''hello'')"
    by (rule sample_accepted)
  have m1: "map msg_id (h_messages (fst ?s1)) = [toString 1000, toString 1001]"
    by (simp add: submit_accepted_messages [OF a1] k userMessage_def finalMessage_def
          streamGenerator_snd chatProps_def callGeminiStream_def gemini_call_nonempty
          geminiMessages_def quick_refusal_def failing_world_def errorMessage_def)
  have c1: "currentApiKey (fst ?s1) = ''AIzaSy-old-key''"
    by (simp add: submit_accepted_page [OF a1] k)
  have t: "trim (input (idle ''again'')) \<noteq> []" "\<not> isLoading (idle ''again'')"
    by (simp_all add: idle_def trim_def is_whitespace_def)
  have a2: "\<not> submit_rejected (chatProps (fst ?s1)) (idle ''again'')"
    by (simp add: submit_rejected_def chatProps_def c1 t)
  have g: "h_modelProvider (fst ?s1) = Gemini"
    by (simp add: submit_accepted_page [OF a1] k)
  have n: "h_messages (fst ?s1) @ [m] \<noteq> []" for m
    by simp
  have m2: "map msg_id (h_messages (fst ?s2)) = [toString 1000, toString 1001, toString 1001, toString 1002]"
    by (simp add: submit_accepted_messages [OF a2] m1 g userMessage_def finalMessage_def
          streamGenerator_snd chatProps_def sample_gemini_stream [OF n]
          next_millisecond_def sample_world_def [symmetric] assistantMessage_def)
  have i0: "(idle [])\<lparr>input := ''hello''\<rparr> = idle ''hello''"
    by (simp add: idle_def)
  have "snd ?s1 = \<lparr>input = [], isLoading = False, isStreaming = False, streamingMessage = []\<rparr>"
    by (rule submit_accepted_page(3) [OF a1])
  then have st1: "(snd ?s1)\<lparr>input := ''again''\<rparr> = idle ''again''"
    by (simp add: idle_def)
  have r: "run sample_json
      [Typing ''hello'', Submit quick_refusal, Typing ''again'', Submit next_millisecond]
      (sample_home, idle []) = ?s2"
    by (simp add: i0 st1)
  show ?thesis
    unfolding r m2 by simp
qed

end
